theory Spec2Isabelle
  imports Main
begin

section \<open>The websocket client of \<^verbatim>\<open>webapp/src/wsclient.ts\<close>\<close>

text \<open>
  The class \<^verbatim>\<open>WSClient\<close> is embedded as a record of its fields and one HOL function
  per method or callback, each taking the client and returning the client it leaves
  behind. What the client does to the outside (calling a registered handler, sending a
  command, closing a socket, failing an assertion) is appended to the field \<open>out\<close>.
  The JavaScript runtime's timers are a queue in the same record.
  The calls \<^verbatim>\<open>Utils.log\<close>, \<^verbatim>\<open>Utils.logWarn\<close> and \<^verbatim>\<open>Utils.logError\<close> only
  write to the console and are left out.
\<close>

subsection \<open>Data\<close>

text \<open>
  \<^verbatim>\<open>Block\<close> and \<^verbatim>\<open>Category\<close> are imported types; the client reads their \<^verbatim>\<open>id\<close>
  only. At run time both are objects, and \<^verbatim>\<open>data as Block\<close> is no conversion, so one
  record stands for either.
\<close>

record entity =
  entity_id :: string
  title :: string

datatype ChangeHandlerType = BlockType | CategoryType

datatype lifecycle = Init | Open | Close

text \<open>
  A message as \<^verbatim>\<open>updateHandler\<close> sees it: the pair \<^verbatim>\<open>[data, type]\<close> that
  \<^verbatim>\<open>Utils.fixWSData(message)\<close> returns (\<^verbatim>\<open>Utils\<close> is not part of the file), with
  \<open>None\<close> for a falsy \<^verbatim>\<open>data\<close>.
\<close>

type_synonym fixed_message = "entity option \<times> ChangeHandlerType"

text \<open>
  A handler is caller code. It is identified by a number (JavaScript compares functions
  by identity), and every handler type receives the client as its first argument, so it
  can call back into it: the second component lists the messages the handler passes to
  \<^verbatim>\<open>client.updateHandler\<close> each time it is invoked. A handler is taken to return:
  the loops that call handlers catch nothing, and error handling is left to the callers.
  Handlers that change a registry while it is being iterated are not covered.
\<close>

datatype handler = Handler (handler_id: nat) (reenters: "fixed_message list")

record wsdata =
  token :: "string option"
  workspaceId :: "string option"
  blockIds :: "string list option"
  readToken :: "string option"

text \<open>An outgoing command: the \<^verbatim>\<open>action\<close> and the remaining properties.\<close>

record wscommand =
  action :: string
  payload :: wsdata

text \<open>
  The host's \<^verbatim>\<open>MMWebSocketClient\<close>: \<open>readyState\<close> is \<^verbatim>\<open>conn?.readyState\<close>
  (\<open>None\<close> when \<^verbatim>\<open>conn\<close> is null), \<open>callbacksSet\<close> says that the four
  \<^verbatim>\<open>set...Callback\<close> calls of \<^verbatim>\<open>open\<close> have been made.
\<close>

record mmclient =
  readyState :: "nat option"
  callbacksSet :: bool

record plugin_status =
  plugin_id :: string
  version :: string

datatype timer_kind = FlushTimer | ReopenTimer | PollTimer | PluginReconnectTimer

text \<open>
  A pending timer of the runtime: the handle \<^verbatim>\<open>setTimeout\<close>/\<^verbatim>\<open>setInterval\<close>
  returned, the time in milliseconds at which it is due, and which of the four closures
  of the file it runs.
\<close>

record timer =
  handle :: nat
  due :: nat
  kind :: timer_kind

datatype effect =
    StateChangeCall handler lifecycle lifecycle
  | ReconnectCall handler
  | ErrorCall handler nat
  | ConfigChangeCall handler nat
  | ChangeCall handler ChangeHandlerType "entity list"
  | AppVersionChange nat bool
  | RelaySend string wsdata
  | WsSend nat wscommand
  | WsNew nat
  | WsCloseCall nat
  | WsFallbackCloseCall nat
  | AssertFailure string
  | TimerFired timer_kind nat

text \<open>
  \<open>StateChangeCall h arg seen\<close>: handler \<open>h\<close> was called with the client and \<open>arg\<close>,
  while the client's field \<^verbatim>\<open>state\<close> held \<open>seen\<close>. \<open>TimerFired\<close> is written by the
  runtime when it runs a timer's closure. Events (\<^verbatim>\<open>Event\<close>), client configurations
  and the version hook are opaque and numbered.
\<close>

record ChangeHandlers =
  Block :: "handler list"
  Category :: "handler list"

record UpdatedData =
  Blocks :: "entity list"
  Categories :: "entity list"

record wsclient =
  ws :: "nat option"
  client :: "mmclient option"
  onPluginReconnect :: bool
  pluginId :: string
  pluginVersion :: string
  onAppVersionChangeHandler :: "nat option"
  clientPrefix :: string
  serverUrl :: "string option"
  state :: lifecycle
  onStateChange :: "handler list"
  onReconnect :: "handler list"
  onChange :: ChangeHandlers
  onError :: "handler list"
  onConfigChange :: "handler list"
  updatedData :: UpdatedData
  updateTimeout :: "nat option"
  errorPollId :: "nat option"
  logged :: bool
  now :: nat
  timers :: "timer list"
  next_handle :: nat
  next_socket :: nat
  out :: "effect list"

text \<open>
  \<open>ws\<close> is the number of the socket held, \<open>onPluginReconnect\<close> says whether the closure
  \<^verbatim>\<open>onReconnect\<close> of \<^verbatim>\<open>open\<close> has been stored. The last five fields are the runtime:
  the clock, the pending timers in creation order, the next fresh timer handle and
  socket number, and what the client has done so far.
\<close>

definition notificationDelay :: nat where
  "notificationDelay = 100"

definition reopenDelay :: nat where
  "reopenDelay = 3000"

definition new_WSClient :: "string option \<Rightarrow> wsclient" where
  "new_WSClient url =
     \<lparr>ws = None, client = None, onPluginReconnect = False, pluginId = '''',
      pluginVersion = '''', onAppVersionChangeHandler = None, clientPrefix = '''',
      serverUrl = url, state = Init, onStateChange = [], onReconnect = [],
      onChange = \<lparr>Block = [], Category = []\<rparr>, onError = [], onConfigChange = [],
      updatedData = \<lparr>Blocks = [], Categories = []\<rparr>, updateTimeout = None,
      errorPollId = None, logged = False, now = 0, timers = [], next_handle = 1,
      next_socket = 0, out = []\<rparr>"

subsection \<open>Timers of the runtime\<close>

text \<open>
  \<^verbatim>\<open>setTimeout(f, delay)\<close> and \<^verbatim>\<open>setInterval(f, delay)\<close> queue a timer and return
  its handle, which is \<open>next_handle\<close> of the client they are applied to.
  \<^verbatim>\<open>clearTimeout(h)\<close> and \<^verbatim>\<open>clearInterval(h)\<close> drop it; a handle that is not
  pending is ignored.
\<close>

definition setTimer :: "timer_kind \<Rightarrow> nat \<Rightarrow> wsclient \<Rightarrow> wsclient" where
  "setTimer k delay c =
     c\<lparr>timers := timers c @ [\<lparr>handle = next_handle c, due = now c + delay, kind = k\<rparr>],
       next_handle := next_handle c + 1\<rparr>"

definition clearTimer :: "nat \<Rightarrow> wsclient \<Rightarrow> wsclient" where
  "clearTimer h c = c\<lparr>timers := filter (\<lambda>t. handle t \<noteq> h) (timers c)\<rparr>"

subsection \<open>The update coalescer\<close>

definition queueUpdateNotification ::
  "(entity \<Rightarrow> entity) \<Rightarrow> entity \<Rightarrow> ChangeHandlerType \<Rightarrow> wsclient \<Rightarrow> wsclient" where
  "queueUpdateNotification hydrateBlock data type c =
     (let c1 = (case type of
                  BlockType \<Rightarrow>
                    c\<lparr>updatedData := (updatedData c)
                        \<lparr>Blocks := filter (\<lambda>o'. entity_id o' \<noteq> entity_id data)
                                     (Blocks (updatedData c)) @ [hydrateBlock data]\<rparr>\<rparr>
                | CategoryType \<Rightarrow>
                    c\<lparr>updatedData := (updatedData c)
                        \<lparr>Categories := filter (\<lambda>c'. entity_id c' \<noteq> entity_id data)
                                         (Categories (updatedData c)) @ [data]\<rparr>\<rparr>);
          c2 = (case updateTimeout c1 of
                  Some h \<Rightarrow> (clearTimer h c1)\<lparr>updateTimeout := None\<rparr>
                | None \<Rightarrow> c1)
      in (setTimer FlushTimer notificationDelay c2)\<lparr>updateTimeout := Some (next_handle c2)\<rparr>)"

definition updateHandler ::
  "(entity \<Rightarrow> entity) \<Rightarrow> fixed_message \<Rightarrow> wsclient \<Rightarrow> wsclient" where
  "updateHandler hydrateBlock message c =
     (case message of
        (Some data, type) \<Rightarrow> queueUpdateNotification hydrateBlock data type c
      | (None, type) \<Rightarrow> c)"

subsection \<open>Calling handlers\<close>

text \<open>
  One call \<^verbatim>\<open>handler(this, ...)\<close>: the call is recorded, then the handler runs and
  re-enters the client as its description says.
\<close>

definition call_handler ::
  "(entity \<Rightarrow> entity) \<Rightarrow> handler \<Rightarrow> effect \<Rightarrow> wsclient \<Rightarrow> wsclient" where
  "call_handler hydrateBlock h e c =
     foldl (\<lambda>c' m. updateHandler hydrateBlock m c') (c\<lparr>out := out c @ [e]\<rparr>) (reenters h)"

text \<open>
  \<^verbatim>\<open>for (const handler of registry) { handler(this, arg) }\<close>: the argument is
  evaluated at each iteration, so it is a function of the client at that point.
\<close>

fun fire_handlers ::
  "(entity \<Rightarrow> entity) \<Rightarrow> (handler \<Rightarrow> wsclient \<Rightarrow> effect) \<Rightarrow> handler list \<Rightarrow> wsclient \<Rightarrow> wsclient" where
  "fire_handlers hydrateBlock mk [] c = c"
| "fire_handlers hydrateBlock mk (h # hs) c =
     fire_handlers hydrateBlock mk hs (call_handler hydrateBlock h (mk h c) c)"

definition flushUpdateNotifications :: "(entity \<Rightarrow> entity) \<Rightarrow> wsclient \<Rightarrow> wsclient" where
  "flushUpdateNotifications hydrateBlock c =
     (let c1 = fire_handlers hydrateBlock
                 (\<lambda>h c'. ChangeCall h BlockType (Blocks (updatedData c')))
                 (Block (onChange c)) c;
          c2 = fire_handlers hydrateBlock
                 (\<lambda>h c'. ChangeCall h CategoryType (Categories (updatedData c')))
                 (Category (onChange c1)) c1
      in c2\<lparr>updatedData := \<lparr>Blocks = [], Categories = []\<rparr>\<rparr>)"

subsection \<open>Registries\<close>

text \<open>
  \<^verbatim>\<open>push\<close> appends; \<^verbatim>\<open>indexOf\<close> followed by \<^verbatim>\<open>splice(index, 1)\<close> removes the
  first occurrence, and nothing when there is none.
\<close>

definition addOnChange :: "handler \<Rightarrow> ChangeHandlerType \<Rightarrow> wsclient \<Rightarrow> wsclient" where
  "addOnChange h type c =
     (case type of
        BlockType \<Rightarrow> c\<lparr>onChange := (onChange c)\<lparr>Block := Block (onChange c) @ [h]\<rparr>\<rparr>
      | CategoryType \<Rightarrow> c\<lparr>onChange := (onChange c)\<lparr>Category := Category (onChange c) @ [h]\<rparr>\<rparr>)"

definition removeOnChange :: "handler \<Rightarrow> ChangeHandlerType \<Rightarrow> wsclient \<Rightarrow> wsclient" where
  "removeOnChange h type c =
     (case type of
        BlockType \<Rightarrow> c\<lparr>onChange := (onChange c)\<lparr>Block := remove1 h (Block (onChange c))\<rparr>\<rparr>
      | CategoryType \<Rightarrow>
          c\<lparr>onChange := (onChange c)\<lparr>Category := remove1 h (Category (onChange c))\<rparr>\<rparr>)"

definition addOnReconnect :: "handler \<Rightarrow> wsclient \<Rightarrow> wsclient" where
  "addOnReconnect h c = c\<lparr>onReconnect := onReconnect c @ [h]\<rparr>"

definition removeOnReconnect :: "handler \<Rightarrow> wsclient \<Rightarrow> wsclient" where
  "removeOnReconnect h c = c\<lparr>onReconnect := remove1 h (onReconnect c)\<rparr>"

definition addOnStateChange :: "handler \<Rightarrow> wsclient \<Rightarrow> wsclient" where
  "addOnStateChange h c = c\<lparr>onStateChange := onStateChange c @ [h]\<rparr>"

definition removeOnStateChange :: "handler \<Rightarrow> wsclient \<Rightarrow> wsclient" where
  "removeOnStateChange h c = c\<lparr>onStateChange := remove1 h (onStateChange c)\<rparr>"

definition addOnError :: "handler \<Rightarrow> wsclient \<Rightarrow> wsclient" where
  "addOnError h c = c\<lparr>onError := onError c @ [h]\<rparr>"

definition removeOnError :: "handler \<Rightarrow> wsclient \<Rightarrow> wsclient" where
  "removeOnError h c = c\<lparr>onError := remove1 h (onError c)\<rparr>"

definition addOnConfigChange :: "handler \<Rightarrow> wsclient \<Rightarrow> wsclient" where
  "addOnConfigChange h c = c\<lparr>onConfigChange := onConfigChange c @ [h]\<rparr>"

definition removeOnConfigChange :: "handler \<Rightarrow> wsclient \<Rightarrow> wsclient" where
  "removeOnConfigChange h c = c\<lparr>onConfigChange := remove1 h (onConfigChange c)\<rparr>"

definition updateClientConfigHandler :: "(entity \<Rightarrow> entity) \<Rightarrow> nat \<Rightarrow> wsclient \<Rightarrow> wsclient" where
  "updateClientConfigHandler hydrateBlock config c =
     fire_handlers hydrateBlock (\<lambda>h c'. ConfigChangeCall h config) (onConfigChange c) c"

subsection \<open>Transports\<close>

definition initPlugin :: "string \<Rightarrow> string \<Rightarrow> mmclient \<Rightarrow> wsclient \<Rightarrow> wsclient" where
  "initPlugin pid pversion relay c =
     c\<lparr>pluginId := pid, pluginVersion := pversion,
       clientPrefix := ''custom_'' @ pid @ ''_'', client := Some relay\<rparr>"

definition hasConn :: "wsclient \<Rightarrow> bool" where
  "hasConn c = (ws c \<noteq> None \<or> client c \<noteq> None)"

text \<open>
  In plugin mode \<^verbatim>\<open>{action, ...data} = command\<close> splits the command and the relay gets
  the prefixed action and the rest; otherwise \<^verbatim>\<open>this.ws?.send\<close> writes the whole
  command to the socket, when there is one.
\<close>

definition sendCommand :: "wscommand \<Rightarrow> wsclient \<Rightarrow> wsclient" where
  "sendCommand command c =
     (case client c of
        Some relay \<Rightarrow> c\<lparr>out := out c @ [RelaySend (clientPrefix c @ action command) (payload command)]\<rparr>
      | None \<Rightarrow>
          (case ws c of
             Some s \<Rightarrow> c\<lparr>out := out c @ [WsSend s command]\<rparr>
           | None \<Rightarrow> c))"

subsection \<open>The closures of open\<close>

definition plugin_onConnect :: "(entity \<Rightarrow> entity) \<Rightarrow> wsclient \<Rightarrow> wsclient" where
  "plugin_onConnect hydrateBlock c =
     (fire_handlers hydrateBlock (\<lambda>h c'. StateChangeCall h Open (state c'))
        (onStateChange c) c)\<lparr>state := Open\<rparr>"

definition plugin_onReconnect :: "(entity \<Rightarrow> entity) \<Rightarrow> wsclient \<Rightarrow> wsclient" where
  "plugin_onReconnect hydrateBlock c =
     (let c1 = plugin_onConnect hydrateBlock c
      in fire_handlers hydrateBlock (\<lambda>h c'. ReconnectCall h) (onReconnect c1) c1)"

text \<open>\<^verbatim>\<open>this.client?.conn?.readyState === 1\<close>\<close>

definition conn_open :: "wsclient \<Rightarrow> bool" where
  "conn_open c = (case client c of Some relay \<Rightarrow> readyState relay = Some 1 | None \<Rightarrow> False)"

text \<open>The closure given to \<^verbatim>\<open>setInterval\<close> in \<^verbatim>\<open>onClose\<close>.\<close>

definition poll :: "(entity \<Rightarrow> entity) \<Rightarrow> wsclient \<Rightarrow> wsclient" where
  "poll hydrateBlock c =
     (if conn_open c
      then (let c1 = plugin_onReconnect hydrateBlock c;
                c2 = (case errorPollId c1 of Some h \<Rightarrow> clearTimer h c1 | None \<Rightarrow> c1)
            in c2\<lparr>errorPollId := None\<rparr>)
      else c)"

definition plugin_onClose :: "(entity \<Rightarrow> entity) \<Rightarrow> nat \<Rightarrow> wsclient \<Rightarrow> wsclient" where
  "plugin_onClose hydrateBlock connectFailCount c =
     (let c1 = fire_handlers hydrateBlock (\<lambda>h c'. StateChangeCall h Close (state c'))
                 (onStateChange c) c;
          c2 = c1\<lparr>state := Close\<rparr>
      in (case errorPollId c2 of
            None \<Rightarrow> (setTimer PollTimer 500 c2)\<lparr>errorPollId := Some (next_handle c2)\<rparr>
          | Some h \<Rightarrow> c2))"

definition plugin_onError :: "(entity \<Rightarrow> entity) \<Rightarrow> nat \<Rightarrow> wsclient \<Rightarrow> wsclient" where
  "plugin_onError hydrateBlock event c =
     fire_handlers hydrateBlock (\<lambda>h c'. ErrorCall h event) (onError c) c"

text \<open>
  \<^verbatim>\<open>open\<close> (a keyword of Isabelle, hence the longer name). In plugin mode it stores
  \<^verbatim>\<open>onReconnect\<close> and hands the four closures to the relay. Otherwise it makes a
  socket and binds its four callbacks; the address (\<^verbatim>\<open>getBaseURL\<close>, \<^verbatim>\<open>new URL\<close>)
  is computed outside this file and taken to be well formed.
\<close>

definition open_ws :: "wsclient \<Rightarrow> wsclient" where
  "open_ws c =
     (case client c of
        Some relay \<Rightarrow> c\<lparr>onPluginReconnect := True, client := Some (relay\<lparr>callbacksSet := True\<rparr>)\<rparr>
      | None \<Rightarrow>
          c\<lparr>logged := True, ws := Some (next_socket c), next_socket := next_socket c + 1,
            out := out c @ [WsNew (next_socket c)]\<rparr>)"

definition ws_onopen :: "(entity \<Rightarrow> entity) \<Rightarrow> wsclient \<Rightarrow> wsclient" where
  "ws_onopen hydrateBlock c =
     (fire_handlers hydrateBlock (\<lambda>h c'. StateChangeCall h Open (state c'))
        (onStateChange c) c)\<lparr>state := Open\<rparr>"

definition ws_onerror :: "(entity \<Rightarrow> entity) \<Rightarrow> nat \<Rightarrow> wsclient \<Rightarrow> wsclient" where
  "ws_onerror hydrateBlock e c =
     fire_handlers hydrateBlock (\<lambda>h c'. ErrorCall h e) (onError c) c"

text \<open>\<open>s\<close> is the socket the callback was bound to (\<^verbatim>\<open>ws\<close> in the closure).\<close>

definition ws_onclose :: "(entity \<Rightarrow> entity) \<Rightarrow> nat \<Rightarrow> wsclient \<Rightarrow> wsclient" where
  "ws_onclose hydrateBlock s c =
     (if ws c = Some s
      then (let c1 = fire_handlers hydrateBlock (\<lambda>h c'. StateChangeCall h Close (state c'))
                       (onStateChange c) c;
                c2 = c1\<lparr>state := Close\<rparr>
            in setTimer ReopenTimer reopenDelay c2)
      else c)"

text \<open>The closure given to \<^verbatim>\<open>setTimeout\<close> in \<^verbatim>\<open>ws.onclose\<close>.\<close>

definition reopen :: "(entity \<Rightarrow> entity) \<Rightarrow> wsclient \<Rightarrow> wsclient" where
  "reopen hydrateBlock c =
     (let c1 = open_ws c
      in fire_handlers hydrateBlock (\<lambda>h c'. ReconnectCall h) (onReconnect c1) c1)"

definition ACTION_UPDATE_BLOCK :: string where
  "ACTION_UPDATE_BLOCK = ''UPDATE_BLOCK''"

definition ACTION_AUTH :: string where
  "ACTION_AUTH = ''AUTH''"

definition ACTION_SUBSCRIBE_BLOCKS :: string where
  "ACTION_SUBSCRIBE_BLOCKS = ''SUBSCRIBE_BLOCKS''"

definition ACTION_SUBSCRIBE_WORKSPACE :: string where
  "ACTION_SUBSCRIBE_WORKSPACE = ''SUBSCRIBE_WORKSPACE''"

definition ACTION_UNSUBSCRIBE_WORKSPACE :: string where
  "ACTION_UNSUBSCRIBE_WORKSPACE = ''UNSUBSCRIBE_WORKSPACE''"

definition ACTION_UNSUBSCRIBE_BLOCKS :: string where
  "ACTION_UNSUBSCRIBE_BLOCKS = ''UNSUBSCRIBE_BLOCKS''"

definition ACTION_UPDATE_CATEGORY :: string where
  "ACTION_UPDATE_CATEGORY = ''UPDATE_CATEGORY''"

text \<open>
  What \<^verbatim>\<open>ws.onmessage\<close> gets: text that does not parse, or a message with a truthy or
  falsy \<^verbatim>\<open>error\<close>, its \<^verbatim>\<open>action\<close>, and what \<^verbatim>\<open>fixWSData\<close> makes of it.
\<close>

datatype ws_frame = NotJSON | Parsed (has_error: bool) (frame_action: "string option") (fixed: fixed_message)

definition ws_onmessage :: "(entity \<Rightarrow> entity) \<Rightarrow> nat \<Rightarrow> ws_frame \<Rightarrow> wsclient \<Rightarrow> wsclient" where
  "ws_onmessage hydrateBlock s e c =
     (if ws c \<noteq> Some s then c
      else (case e of
              NotJSON \<Rightarrow> c
            | Parsed err act message \<Rightarrow>
                if err then c
                else if act = Some ACTION_UPDATE_BLOCK then updateHandler hydrateBlock message c
                else if act = Some ACTION_UPDATE_CATEGORY then updateHandler hydrateBlock message c
                else c))"

subsection \<open>Plugin status broadcasts\<close>

definition setOnAppVersionChangeHandler :: "nat \<Rightarrow> wsclient \<Rightarrow> wsclient" where
  "setOnAppVersionChangeHandler fn c = c\<lparr>onAppVersionChangeHandler := Some fn\<rparr>"

text \<open>
  \<^verbatim>\<open>Utils.compareVersions\<close> is not part of the file and is a parameter. \<open>statuses\<close> is
  \<^verbatim>\<open>data.plugin_statuses\<close>; \<^verbatim>\<open>find\<close> returns the first status with the plugin's id.
\<close>

definition pluginStatusesChangedHandler ::
  "(string \<Rightarrow> string \<Rightarrow> int) \<Rightarrow> plugin_status list \<Rightarrow> wsclient \<Rightarrow> wsclient" where
  "pluginStatusesChangedHandler compareVersions statuses c =
     (if pluginId c = '''' then c
      else (case onAppVersionChangeHandler c of
              None \<Rightarrow> c
            | Some fn \<Rightarrow>
                (case find (\<lambda>s. plugin_id s = pluginId c) statuses of
                   None \<Rightarrow> c
                 | Some focalboardStatusChange \<Rightarrow>
                     (let c1 = (if compareVersions (pluginVersion c)
                                     (version focalboardStatusChange) > 0
                                then c\<lparr>out := out c @ [AppVersionChange fn True]\<rparr>
                                else c);
                          c2 = (if compareVersions (pluginVersion c1)
                                     (version focalboardStatusChange) \<ge> 0
                                then setTimer PluginReconnectTimer 1000 c1
                                else c1)
                      in c2))))"

text \<open>The closure given to \<^verbatim>\<open>setTimeout\<close> in \<^verbatim>\<open>pluginStatusesChangedHandler\<close>.\<close>

definition reconnect_after_update :: "(entity \<Rightarrow> entity) \<Rightarrow> wsclient \<Rightarrow> wsclient" where
  "reconnect_after_update hydrateBlock c =
     (if onPluginReconnect c then plugin_onReconnect hydrateBlock c else c)"

subsection \<open>Commands\<close>

text \<open>
  Modelled from the spec: \<^verbatim>\<open>Utils.assertFailure\<close> is not part of the file. A
  precondition violation is "logged as an assertion failure, operation silently skipped,
  no exception raised": the failure is recorded and the call returns.
\<close>

definition assertFailure :: "string \<Rightarrow> wsclient \<Rightarrow> wsclient" where
  "assertFailure msg c = c\<lparr>out := out c @ [AssertFailure msg]\<rparr>"

definition authenticate :: "string \<Rightarrow> string \<Rightarrow> wsclient \<Rightarrow> wsclient" where
  "authenticate wid tok c =
     (if \<not> hasConn c
      then assertFailure ''WSClient.addBlocks: ws is not open'' c
      else if tok = '''' then c
      else sendCommand
             \<lparr>action = ACTION_AUTH,
              payload = \<lparr>token = Some tok, workspaceId = Some wid, blockIds = None,
                         readToken = None\<rparr>\<rparr> c)"

definition subscribeToBlocks :: "string \<Rightarrow> string list \<Rightarrow> string \<Rightarrow> wsclient \<Rightarrow> wsclient" where
  "subscribeToBlocks wid ids rtok c =
     (if \<not> hasConn c
      then assertFailure ''WSClient.subscribeToBlocks: ws is not open'' c
      else sendCommand
             \<lparr>action = ACTION_SUBSCRIBE_BLOCKS,
              payload = \<lparr>token = None, workspaceId = Some wid, blockIds = Some ids,
                         readToken = Some rtok\<rparr>\<rparr> c)"

definition unsubscribeToWorkspace :: "string \<Rightarrow> wsclient \<Rightarrow> wsclient" where
  "unsubscribeToWorkspace wid c =
     (if \<not> hasConn c
      then assertFailure ''WSClient.subscribeToWorkspace: ws is not open'' c
      else sendCommand
             \<lparr>action = ACTION_UNSUBSCRIBE_WORKSPACE,
              payload = \<lparr>token = None, workspaceId = Some wid, blockIds = None,
                         readToken = None\<rparr>\<rparr> c)"

definition subscribeToWorkspace :: "string \<Rightarrow> wsclient \<Rightarrow> wsclient" where
  "subscribeToWorkspace wid c =
     (if \<not> hasConn c
      then assertFailure ''WSClient.subscribeToWorkspace: ws is not open'' c
      else sendCommand
             \<lparr>action = ACTION_SUBSCRIBE_WORKSPACE,
              payload = \<lparr>token = None, workspaceId = Some wid, blockIds = None,
                         readToken = None\<rparr>\<rparr> c)"

definition unsubscribeFromBlocks :: "string \<Rightarrow> string list \<Rightarrow> string \<Rightarrow> wsclient \<Rightarrow> wsclient" where
  "unsubscribeFromBlocks wid ids rtok c =
     (if \<not> hasConn c
      then assertFailure ''WSClient.removeBlocks: ws is not open'' c
      else sendCommand
             \<lparr>action = ACTION_UNSUBSCRIBE_BLOCKS,
              payload = \<lparr>token = None, workspaceId = Some wid, blockIds = Some ids,
                         readToken = Some rtok\<rparr>\<rparr> c)"

subsection \<open>Teardown\<close>

text \<open>
  What the socket does when \<^verbatim>\<open>close\<close> tries to close it: \<^verbatim>\<open>ws?.close()\<close> returns,
  or it throws; in that case the fallback \<^verbatim>\<open>(ws as any)?.websocket?.close()\<close> is a call
  only when the socket has a \<^verbatim>\<open>websocket\<close> property. Whether the fallback throws only
  decides a log line.
\<close>

datatype ws_close = CloseReturns | CloseThrows (has_websocket: bool)

definition close :: "ws_close \<Rightarrow> wsclient \<Rightarrow> wsclient" where
  "close r c =
     (if \<not> hasConn c then c
      else (let ws0 = ws c;
                c1 = c\<lparr>ws := None, onChange := \<lparr>Block = [], Category = []\<rparr>,
                       onReconnect := [], onStateChange := [], onError := []\<rparr>
            in if client c1 \<noteq> None then c1
               else (case ws0 of
                       None \<Rightarrow> c1
                     | Some s \<Rightarrow>
                         (case r of
                            CloseReturns \<Rightarrow> c1\<lparr>out := out c1 @ [WsCloseCall s]\<rparr>
                          | CloseThrows websocket \<Rightarrow>
                              if websocket
                              then c1\<lparr>out := out c1 @ [WsCloseCall s, WsFallbackCloseCall s]\<rparr>
                              else c1\<lparr>out := out c1 @ [WsCloseCall s]\<rparr>))))"

subsection \<open>Running timers\<close>

text \<open>
  The runtime running a due timer: a timeout leaves the queue, an interval (only the
  poll of \<^verbatim>\<open>onClose\<close> is one, every 500 ms) stays with its next time; then the closure
  runs.
\<close>

definition run_timer :: "(entity \<Rightarrow> entity) \<Rightarrow> timer \<Rightarrow> wsclient \<Rightarrow> wsclient" where
  "run_timer hydrateBlock t c =
     (let c1 = (if kind t = PollTimer
                then c\<lparr>timers := map (\<lambda>u. if handle u = handle t then u\<lparr>due := due u + 500\<rparr> else u)
                                    (timers c)\<rparr>
                else clearTimer (handle t) c);
          c2 = c1\<lparr>out := out c1 @ [TimerFired (kind t) (handle t)]\<rparr>
      in (case kind t of
            FlushTimer \<Rightarrow> flushUpdateNotifications hydrateBlock c2
          | ReopenTimer \<Rightarrow> reopen hydrateBlock c2
          | PollTimer \<Rightarrow> poll hydrateBlock c2
          | PluginReconnectTimer \<Rightarrow> reconnect_after_update hydrateBlock c2))"

text \<open>The timers of a list, in order, each only if it is still pending when its turn comes.\<close>

fun run_due :: "(entity \<Rightarrow> entity) \<Rightarrow> timer list \<Rightarrow> wsclient \<Rightarrow> wsclient" where
  "run_due hydrateBlock [] c = c"
| "run_due hydrateBlock (t # ts) c =
     run_due hydrateBlock ts (if t \<in> set (timers c) then run_timer hydrateBlock t c else c)"

text \<open>One millisecond passes, and the timers that are due run.\<close>

definition tick :: "(entity \<Rightarrow> entity) \<Rightarrow> wsclient \<Rightarrow> wsclient" where
  "tick hydrateBlock c =
     (let c1 = c\<lparr>now := now c + 1\<rparr>
      in run_due hydrateBlock (filter (\<lambda>t. due t \<le> now c1) (timers c1)) c1)"

fun advance :: "(entity \<Rightarrow> entity) \<Rightarrow> nat \<Rightarrow> wsclient \<Rightarrow> wsclient" where
  "advance hydrateBlock 0 c = c"
| "advance hydrateBlock (Suc n) c = tick hydrateBlock (advance hydrateBlock n c)"

subsection \<open>What can happen to a client\<close>

text \<open>
  The calls of the public methods, and the callbacks the environment makes: those of a
  socket that \<^verbatim>\<open>open\<close> created, those of the relay once \<^verbatim>\<open>open\<close> has handed them
  over, a change of the relay's \<^verbatim>\<open>conn.readyState\<close>, and the passing of a millisecond.
\<close>

datatype input =
    InitPlugin string string mmclient
  | OpenCall
  | CloseCall ws_close
  | AddOnChange handler ChangeHandlerType
  | RemoveOnChange handler ChangeHandlerType
  | AddOnReconnect handler
  | RemoveOnReconnect handler
  | AddOnStateChange handler
  | RemoveOnStateChange handler
  | AddOnError handler
  | RemoveOnError handler
  | AddOnConfigChange handler
  | RemoveOnConfigChange handler
  | UpdateHandlerCall fixed_message
  | UpdateClientConfig nat
  | SetOnAppVersionChange nat
  | PluginStatusesChanged "plugin_status list"
  | Authenticate string string
  | SubscribeToBlocks string "string list" string
  | UnsubscribeToWorkspace string
  | SubscribeToWorkspace string
  | UnsubscribeFromBlocks string "string list" string
  | WsOpened nat
  | WsErrored nat nat
  | WsClosed nat
  | WsMessage nat ws_frame
  | RelayFirstConnect
  | RelayReconnect
  | RelayError nat
  | RelayClose nat
  | RelayConn "nat option"
  | Tick

definition relay_ready :: "wsclient \<Rightarrow> bool" where
  "relay_ready c = (case client c of Some relay \<Rightarrow> callbacksSet relay | None \<Rightarrow> False)"

fun step ::
  "(entity \<Rightarrow> entity) \<Rightarrow> (string \<Rightarrow> string \<Rightarrow> int) \<Rightarrow> input \<Rightarrow> wsclient \<Rightarrow> wsclient" where
  "step hb cv (InitPlugin pid pversion relay) c = initPlugin pid pversion relay c"
| "step hb cv OpenCall c = open_ws c"
| "step hb cv (CloseCall b) c = close b c"
| "step hb cv (AddOnChange h ty) c = addOnChange h ty c"
| "step hb cv (RemoveOnChange h ty) c = removeOnChange h ty c"
| "step hb cv (AddOnReconnect h) c = addOnReconnect h c"
| "step hb cv (RemoveOnReconnect h) c = removeOnReconnect h c"
| "step hb cv (AddOnStateChange h) c = addOnStateChange h c"
| "step hb cv (RemoveOnStateChange h) c = removeOnStateChange h c"
| "step hb cv (AddOnError h) c = addOnError h c"
| "step hb cv (RemoveOnError h) c = removeOnError h c"
| "step hb cv (AddOnConfigChange h) c = addOnConfigChange h c"
| "step hb cv (RemoveOnConfigChange h) c = removeOnConfigChange h c"
| "step hb cv (UpdateHandlerCall m) c = updateHandler hb m c"
| "step hb cv (UpdateClientConfig cfg) c = updateClientConfigHandler hb cfg c"
| "step hb cv (SetOnAppVersionChange fn) c = setOnAppVersionChangeHandler fn c"
| "step hb cv (PluginStatusesChanged sts) c = pluginStatusesChangedHandler cv sts c"
| "step hb cv (Authenticate wid tok) c = authenticate wid tok c"
| "step hb cv (SubscribeToBlocks wid ids rtok) c = subscribeToBlocks wid ids rtok c"
| "step hb cv (UnsubscribeToWorkspace wid) c = unsubscribeToWorkspace wid c"
| "step hb cv (SubscribeToWorkspace wid) c = subscribeToWorkspace wid c"
| "step hb cv (UnsubscribeFromBlocks wid ids rtok) c = unsubscribeFromBlocks wid ids rtok c"
| "step hb cv (WsOpened s) c = (if s < next_socket c then ws_onopen hb c else c)"
| "step hb cv (WsErrored s e) c = (if s < next_socket c then ws_onerror hb e c else c)"
| "step hb cv (WsClosed s) c = (if s < next_socket c then ws_onclose hb s c else c)"
| "step hb cv (WsMessage s e) c = (if s < next_socket c then ws_onmessage hb s e c else c)"
| "step hb cv RelayFirstConnect c = (if relay_ready c then plugin_onConnect hb c else c)"
| "step hb cv RelayReconnect c = (if relay_ready c then plugin_onReconnect hb c else c)"
| "step hb cv (RelayError e) c = (if relay_ready c then plugin_onError hb e c else c)"
| "step hb cv (RelayClose n) c = (if relay_ready c then plugin_onClose hb n c else c)"
| "step hb cv (RelayConn r) c =
     c\<lparr>client := map_option (\<lambda>relay. relay\<lparr>readyState := r\<rparr>) (client c)\<rparr>"
| "step hb cv Tick c = tick hb c"

fun run ::
  "(entity \<Rightarrow> entity) \<Rightarrow> (string \<Rightarrow> string \<Rightarrow> int) \<Rightarrow> input list \<Rightarrow> wsclient \<Rightarrow> wsclient" where
  "run hb cv [] c = c"
| "run hb cv (i # is) c = run hb cv is (step hb cv i c)"

subsection \<open>Sequences of enqueues\<close>

text \<open>Enqueueing the entities of a list, one after the other, in one category.\<close>

fun enqueue_all ::
  "(entity \<Rightarrow> entity) \<Rightarrow> entity list \<Rightarrow> ChangeHandlerType \<Rightarrow> wsclient \<Rightarrow> wsclient" where
  "enqueue_all hb [] ty c = c"
| "enqueue_all hb (e # es) ty c = enqueue_all hb es ty (queueUpdateNotification hb e ty c)"

text \<open>The identities in the two pending sequences are pairwise different.\<close>

definition ids_distinct :: "wsclient \<Rightarrow> bool" where
  "ids_distinct c =
     (distinct (map entity_id (Blocks (updatedData c))) \<and>
      distinct (map entity_id (Categories (updatedData c))))"

subsection \<open>Reading the effects\<close>

text \<open>The effects a loop over handlers records, one for each handler.\<close>

fun fired ::
  "(entity \<Rightarrow> entity) \<Rightarrow> (handler \<Rightarrow> wsclient \<Rightarrow> effect) \<Rightarrow> handler list \<Rightarrow> wsclient \<Rightarrow> effect list" where
  "fired hb mk [] c = []"
| "fired hb mk (h # hs) c = mk h c # fired hb mk hs (call_handler hb h (mk h c) c)"

text \<open>The handler and category of a call of a change handler.\<close>

fun change_call :: "effect \<Rightarrow> (handler \<times> ChangeHandlerType) option" where
  "change_call (ChangeCall h ty items) = Some (h, ty)"
| "change_call e = None"

subsection \<open>Pending timers\<close>

definition poll_timers :: "wsclient \<Rightarrow> timer list" where
  "poll_timers c = filter (\<lambda>t. kind t = PollTimer) (timers c)"

definition flush_timers :: "wsclient \<Rightarrow> timer list" where
  "flush_timers c = filter (\<lambda>t. kind t = FlushTimer) (timers c)"

text \<open>
  The timer queue and the two handles the client keeps agree: handles are fresh and
  pairwise different, the pending debounce timer (if any) is the one \<^verbatim>\<open>updateTimeout\<close>
  names, and the pending poll (if any) is the one \<^verbatim>\<open>errorPollId\<close> names.
\<close>

definition timers_ok :: "wsclient \<Rightarrow> bool" where
  "timers_ok c =
     ((\<forall>t\<in>set (timers c). handle t < next_handle c) \<and>
      distinct (map handle (timers c)) \<and>
      (case updateTimeout c of
         None \<Rightarrow> flush_timers c = []
       | Some h \<Rightarrow> h < next_handle c \<and>
           (\<forall>t\<in>set (timers c). (handle t = h) = (kind t = FlushTimer))) \<and>
      (case errorPollId c of
         None \<Rightarrow> poll_timers c = []
       | Some h \<Rightarrow> map handle (poll_timers c) = [h]))"

subsection \<open>Bursts and flush counts\<close>

text \<open>
  \<open>flushes\<close> counts the runs of the debounce timer's closure, which is the only caller
  of \<^verbatim>\<open>flushUpdateNotifications\<close>. A burst is a list of enqueues, each after a
  pause in milliseconds.
\<close>

fun flush_fired :: "effect \<Rightarrow> bool" where
  "flush_fired (TimerFired FlushTimer h) = True"
| "flush_fired e = False"

definition flushes :: "wsclient \<Rightarrow> nat" where
  "flushes c = length (filter flush_fired (out c))"

fun burst ::
  "(entity \<Rightarrow> entity) \<Rightarrow> (nat \<times> entity \<times> ChangeHandlerType) list \<Rightarrow> wsclient \<Rightarrow> wsclient" where
  "burst hb [] c = c"
| "burst hb ((gap, d, ty) # es) c =
     burst hb es (queueUpdateNotification hb d ty (advance hb gap c))"

text \<open>The debounce timer is the only timer pending, and it is due in a full interval.\<close>

definition debounce_armed :: "wsclient \<Rightarrow> bool" where
  "debounce_armed c =
     (case updateTimeout c of
        None \<Rightarrow> False
      | Some h \<Rightarrow> timers c = [\<lparr>handle = h, due = now c + notificationDelay, kind = FlushTimer\<rparr>])"

subsection \<open>Example clients\<close>

text \<open>
  Concrete inputs for the examples below. \<^verbatim>\<open>hydrateBlock\<close> is the identity there and
  \<^verbatim>\<open>compareVersions\<close> a constant function.
\<close>

definition b1 :: entity where
  "b1 = \<lparr>entity_id = ''b1'', title = ''''\<rparr>"

definition b1_v2 :: entity where
  "b1_v2 = \<lparr>entity_id = ''b1'', title = ''v2''\<rparr>"

definition b2 :: entity where
  "b2 = \<lparr>entity_id = ''b2'', title = ''new''\<rparr>"

definition flush_example :: wsclient where
  "flush_example =
     updateHandler (\<lambda>b. b) (Some b1, BlockType)
       (addOnChange (Handler 2 []) CategoryType
         (addOnChange (Handler 1 []) BlockType (new_WSClient None)))"

definition reentry_example :: wsclient where
  "reentry_example =
     updateHandler (\<lambda>b. b) (Some b1, CategoryType)
       (addOnChange (Handler 1 [(Some b2, CategoryType)]) CategoryType (new_WSClient None))"

definition reentry_example2 :: wsclient where
  "reentry_example2 =
     updateHandler (\<lambda>b. b) (Some b1, BlockType)
       (addOnChange (Handler 2 []) BlockType
         (addOnChange (Handler 1 [(Some b2, BlockType)]) BlockType (new_WSClient None)))"

definition plugin_example :: wsclient where
  "plugin_example =
     addOnStateChange (Handler 1 [])
       (open_ws (initPlugin ''focalboard'' ''7.0.0''
          \<lparr>readyState = Some 1, callbacksSet = False\<rparr> (new_WSClient None)))"

definition standalone_example :: wsclient where
  "standalone_example =
     addOnConfigChange (Handler 5 [])
       (addOnChange (Handler 4 []) CategoryType
         (addOnChange (Handler 3 []) BlockType
           (addOnError (Handler 2 [])
             (addOnReconnect (Handler 1 [])
               (addOnStateChange (Handler 0 []) (open_ws (new_WSClient None)))))))"

definition unopened_example :: wsclient where
  "unopened_example =
     addOnConfigChange (Handler 5 []) (addOnStateChange (Handler 0 []) (new_WSClient None))"

definition debounce_example :: wsclient where
  "debounce_example = addOnChange (Handler 1 []) BlockType (new_WSClient None)"

definition closed_relay_example :: wsclient where
  "closed_relay_example =
     addOnReconnect (Handler 2 [])
       (addOnStateChange (Handler 1 [])
         (open_ws (initPlugin ''focalboard'' ''7.0.0''
            \<lparr>readyState = Some 3, callbacksSet = False\<rparr> (new_WSClient None))))"

definition reopened_relay_example :: wsclient where
  "reopened_relay_example =
     step (\<lambda>b. b) (\<lambda>a b. 0) (RelayConn (Some 1))
       (plugin_onClose (\<lambda>b. b) 3 closed_relay_example)"

definition status_example :: wsclient where
  "status_example =
     setOnAppVersionChangeHandler 9
       (addOnReconnect (Handler 2 [])
         (addOnStateChange (Handler 1 [])
           (open_ws (initPlugin ''focalboard'' ''7.0.0''
              \<lparr>readyState = Some 1, callbacksSet = False\<rparr> (new_WSClient None)))))"

definition b3 :: entity where
  "b3 = \<lparr>entity_id = ''b3'', title = ''newer''\<rparr>"

definition reentry_example3 :: wsclient where
  "reentry_example3 =
     updateHandler (\<lambda>b. b) (Some b1, BlockType)
       (addOnChange (Handler 3 []) CategoryType
         (addOnChange (Handler 2 [(Some b3, CategoryType)]) CategoryType
           (addOnChange (Handler 1 [(Some b2, CategoryType)]) BlockType (new_WSClient None))))"

definition cross_example :: wsclient where
  "cross_example =
     updateHandler (\<lambda>b. b) (Some b1, BlockType)
       (addOnChange (Handler 2 []) CategoryType
         (addOnChange (Handler 1 [(Some b2, CategoryType)]) BlockType (new_WSClient None)))"

section \<open>Properties\<close>

subsection \<open>Effects of an enqueue\<close>

lemma queue_Blocks:
  "Blocks (updatedData (queueUpdateNotification hb d BlockType c)) =
     filter (\<lambda>x. entity_id x \<noteq> entity_id d) (Blocks (updatedData c)) @ [hb d]"
  "Categories (updatedData (queueUpdateNotification hb d BlockType c)) = Categories (updatedData c)"
  by (simp_all add: queueUpdateNotification_def setTimer_def clearTimer_def Let_def split: option.split)

lemma queue_Categories:
  "Categories (updatedData (queueUpdateNotification hb d CategoryType c)) =
     filter (\<lambda>x. entity_id x \<noteq> entity_id d) (Categories (updatedData c)) @ [d]"
  "Blocks (updatedData (queueUpdateNotification hb d CategoryType c)) = Blocks (updatedData c)"
  by (simp_all add: queueUpdateNotification_def setTimer_def clearTimer_def Let_def split: option.split)

lemma queue_frame:
  "state (queueUpdateNotification hb d ty c) = state c"
  "out (queueUpdateNotification hb d ty c) = out c"
  "onStateChange (queueUpdateNotification hb d ty c) = onStateChange c"
  "onReconnect (queueUpdateNotification hb d ty c) = onReconnect c"
  "onChange (queueUpdateNotification hb d ty c) = onChange c"
  "onError (queueUpdateNotification hb d ty c) = onError c"
  "onConfigChange (queueUpdateNotification hb d ty c) = onConfigChange c"
  "ws (queueUpdateNotification hb d ty c) = ws c"
  "client (queueUpdateNotification hb d ty c) = client c"
  "errorPollId (queueUpdateNotification hb d ty c) = errorPollId c"
  "now (queueUpdateNotification hb d ty c) = now c"
  by (simp_all add: queueUpdateNotification_def setTimer_def clearTimer_def Let_def split: option.split ChangeHandlerType.split)

lemma distinct_ids_replace:
  assumes "distinct (map entity_id xs)" and "entity_id y = entity_id d"
  shows "distinct (map entity_id (filter (\<lambda>x. entity_id x \<noteq> entity_id d) xs @ [y]))"
  using assms by (auto simp: distinct_map_filter)

lemma queue_ids_distinct:
  assumes "\<And>b. entity_id (hb b) = entity_id b" and "ids_distinct c"
  shows "ids_distinct (queueUpdateNotification hb d ty c)"
proof (cases ty)
  case BlockType
  with assms show ?thesis
    unfolding ids_distinct_def by (auto simp: queue_Blocks distinct_map_filter)
next
  case CategoryType
  with assms show ?thesis
    unfolding ids_distinct_def by (auto simp: queue_Categories distinct_map_filter)
qed

text \<open>A property kept by recording an effect and by an enqueue is kept by calling handlers.\<close>

lemma call_handler_keeps:
  assumes "P c"
    and "\<And>c e. P c \<Longrightarrow> P (c\<lparr>out := out c @ [e]\<rparr>)"
    and "\<And>c d ty. P c \<Longrightarrow> P (queueUpdateNotification hb d ty c)"
  shows "P (call_handler hb h e c)"
proof -
  have "P c' \<Longrightarrow> P (foldl (\<lambda>c' m. updateHandler hb m c') c' ms)" for c' ms
    by (induction ms arbitrary: c') (auto simp: updateHandler_def assms(3) split: option.split)
  then show ?thesis
    unfolding call_handler_def using assms(1,2) by blast
qed

lemma fire_handlers_keeps:
  assumes "P c"
    and "\<And>c e. P c \<Longrightarrow> P (c\<lparr>out := out c @ [e]\<rparr>)"
    and "\<And>c d ty. P c \<Longrightarrow> P (queueUpdateNotification hb d ty c)"
  shows "P (fire_handlers hb mk hs c)"
  using assms(1)
proof (induction hs arbitrary: c)
  case Nil
  then show ?case by simp
next
  case (Cons h hs)
  have "P (call_handler hb h (mk h c) c)"
    using Cons.prems assms(2,3) by (rule call_handler_keeps)
  then show ?case by (simp add: Cons.IH)
qed


lemma ids_distinct_frame:
  "ids_distinct (c\<lparr>out := a1\<rparr>) = ids_distinct c"
  "ids_distinct (c\<lparr>state := a2\<rparr>) = ids_distinct c"
  "ids_distinct (c\<lparr>timers := a3\<rparr>) = ids_distinct c"
  "ids_distinct (c\<lparr>next_handle := a4\<rparr>) = ids_distinct c"
  "ids_distinct (c\<lparr>errorPollId := a5\<rparr>) = ids_distinct c"
  "ids_distinct (c\<lparr>now := a6\<rparr>) = ids_distinct c"
  "ids_distinct (c\<lparr>ws := a7\<rparr>) = ids_distinct c"
  "ids_distinct (c\<lparr>client := a8\<rparr>) = ids_distinct c"
  "ids_distinct (c\<lparr>onChange := a9\<rparr>) = ids_distinct c"
  "ids_distinct (c\<lparr>onReconnect := a10\<rparr>) = ids_distinct c"
  "ids_distinct (c\<lparr>onStateChange := a11\<rparr>) = ids_distinct c"
  "ids_distinct (c\<lparr>onError := a12\<rparr>) = ids_distinct c"
  "ids_distinct (c\<lparr>onConfigChange := a13\<rparr>) = ids_distinct c"
  "ids_distinct (c\<lparr>onPluginReconnect := a14\<rparr>) = ids_distinct c"
  "ids_distinct (c\<lparr>logged := a15\<rparr>) = ids_distinct c"
  "ids_distinct (c\<lparr>next_socket := a16\<rparr>) = ids_distinct c"
  "ids_distinct (c\<lparr>onAppVersionChangeHandler := a17\<rparr>) = ids_distinct c"
  "ids_distinct (c\<lparr>pluginId := a18\<rparr>) = ids_distinct c"
  "ids_distinct (c\<lparr>pluginVersion := a19\<rparr>) = ids_distinct c"
  "ids_distinct (c\<lparr>clientPrefix := a20\<rparr>) = ids_distinct c"
  "ids_distinct (c\<lparr>updateTimeout := a21\<rparr>) = ids_distinct c"
  "ids_distinct (c\<lparr>updatedData := \<lparr>Blocks = [], Categories = []\<rparr>\<rparr>)"
  by (simp_all add: ids_distinct_def)

lemma fire_handlers_ids_distinct:
  assumes "\<And>b. entity_id (hb b) = entity_id b" and "ids_distinct c"
  shows "ids_distinct (fire_handlers hb mk hs c)"
  using assms(2)
  by (rule fire_handlers_keeps) (simp_all add: ids_distinct_frame queue_ids_distinct assms(1))

lemma updateHandler_ids_distinct:
  assumes "\<And>b. entity_id (hb b) = entity_id b" and "ids_distinct c"
  shows "ids_distinct (updateHandler hb m c)"
  using assms by (cases m) (simp add: updateHandler_def queue_ids_distinct split: option.split)

lemma timer_ops_ids_distinct:
  "ids_distinct (setTimer k d c) = ids_distinct c"
  "ids_distinct (clearTimer h c) = ids_distinct c"
  by (simp_all add: setTimer_def clearTimer_def ids_distinct_def)

lemma open_ws_ids_distinct: "ids_distinct (open_ws c) = ids_distinct c"
  by (simp add: open_ws_def ids_distinct_def split: option.split)

lemma plugin_onReconnect_ids_distinct:
  assumes "\<And>b. entity_id (hb b) = entity_id b" and "ids_distinct c"
  shows "ids_distinct (plugin_onReconnect hb c)"
  using assms
  by (simp add: plugin_onReconnect_def plugin_onConnect_def Let_def ids_distinct_frame
      fire_handlers_ids_distinct)

lemma run_timer_ids_distinct:
  assumes "\<And>b. entity_id (hb b) = entity_id b" and "ids_distinct c"
  shows "ids_distinct (run_timer hb t c)"
proof (cases "kind t")
  case FlushTimer
  then show ?thesis
    by (simp add: run_timer_def flushUpdateNotifications_def Let_def ids_distinct_frame)
next
  case ReopenTimer
  with assms show ?thesis
    by (simp add: run_timer_def reopen_def Let_def ids_distinct_frame timer_ops_ids_distinct
        open_ws_ids_distinct fire_handlers_ids_distinct)
next
  case PollTimer
  with assms show ?thesis
    by (simp add: run_timer_def poll_def Let_def ids_distinct_frame timer_ops_ids_distinct
        plugin_onReconnect_ids_distinct split: option.split)
next
  case PluginReconnectTimer
  with assms show ?thesis
    by (simp add: run_timer_def reconnect_after_update_def Let_def ids_distinct_frame
        timer_ops_ids_distinct plugin_onReconnect_ids_distinct)
qed

lemma run_due_ids_distinct:
  assumes "\<And>b. entity_id (hb b) = entity_id b" and "ids_distinct c"
  shows "ids_distinct (run_due hb ts c)"
  using assms(2)
  by (induction ts arbitrary: c) (simp_all add: run_timer_ids_distinct assms(1))

lemma tick_ids_distinct:
  assumes "\<And>b. entity_id (hb b) = entity_id b" and "ids_distinct c"
  shows "ids_distinct (tick hb c)"
  using assms by (simp add: tick_def Let_def run_due_ids_distinct ids_distinct_frame)

lemma sendCommand_ids_distinct: "ids_distinct (sendCommand cmd c) = ids_distinct c"
  by (simp add: sendCommand_def ids_distinct_def split: option.split)

lemma step_ids_distinct:
  assumes "\<And>b. entity_id (hb b) = entity_id b" and "ids_distinct c"
  shows "ids_distinct (step hb cv i c)"
proof (cases i)
  case (PluginStatusesChanged sts)
  with assms(2) show ?thesis
    by (simp add: pluginStatusesChangedHandler_def Let_def ids_distinct_frame
        timer_ops_ids_distinct split: option.split)
next
  case (WsMessage s e)
  with assms show ?thesis
    by (cases e) (simp_all add: ws_onmessage_def updateHandler_ids_distinct)
next
  case (CloseCall b)
  with assms(2) show ?thesis
    by (simp add: close_def Let_def ids_distinct_frame split: option.split ws_close.split)
qed (use assms in \<open>simp_all add: ids_distinct_frame timer_ops_ids_distinct
      fire_handlers_ids_distinct updateHandler_ids_distinct tick_ids_distinct
      sendCommand_ids_distinct plugin_onReconnect_ids_distinct open_ws_ids_distinct
      initPlugin_def addOnChange_def removeOnChange_def addOnReconnect_def
      removeOnReconnect_def addOnStateChange_def removeOnStateChange_def addOnError_def
      removeOnError_def addOnConfigChange_def removeOnConfigChange_def
      updateClientConfigHandler_def setOnAppVersionChangeHandler_def authenticate_def
      assertFailure_def
      subscribeToBlocks_def unsubscribeToWorkspace_def subscribeToWorkspace_def
      unsubscribeFromBlocks_def ws_onopen_def ws_onerror_def ws_onclose_def
      plugin_onConnect_def plugin_onError_def plugin_onClose_def Let_def
      split: ChangeHandlerType.split option.split\<close>)

lemma run_ids_distinct:
  assumes "\<And>b. entity_id (hb b) = entity_id b" and "ids_distinct c"
  shows "ids_distinct (run hb cv is c)"
  using assms(2)
  by (induction "is" arbitrary: c) (simp_all add: step_ids_distinct assms(1))

lemma new_ids_distinct: "ids_distinct (new_WSClient url)"
  by (simp add: new_WSClient_def ids_distinct_def)

subsection \<open>The pending sequences\<close>

lemma enqueue_all_Blocks:
  assumes "\<And>b. entity_id (hb b) = entity_id b"
    and "es \<noteq> []" and "\<forall>e\<in>set es. entity_id e = i"
  shows "Blocks (updatedData (enqueue_all hb es BlockType c)) =
           filter (\<lambda>x. entity_id x \<noteq> i) (Blocks (updatedData c)) @ [hb (last es)]"
  using assms(2,3)
proof (induction es arbitrary: c)
  case Nil
  then show ?case by simp
next
  case (Cons e es)
  show ?case
  proof (cases "es = []")
    case True
    with Cons.prems show ?thesis by (simp add: queue_Blocks)
  next
    case False
    with Cons show ?thesis by (simp add: queue_Blocks assms(1))
  qed
qed

lemma enqueue_all_Categories:
  assumes "es \<noteq> []" and "\<forall>e\<in>set es. entity_id e = i"
  shows "Categories (updatedData (enqueue_all hb es CategoryType c)) =
           filter (\<lambda>x. entity_id x \<noteq> i) (Categories (updatedData c)) @ [last es]"
  using assms
proof (induction es arbitrary: c)
  case Nil
  then show ?case by simp
next
  case (Cons e es)
  show ?case
  proof (cases "es = []")
    case True
    with Cons.prems show ?thesis by (simp add: queue_Categories)
  next
    case False
    with Cons show ?thesis by (simp add: queue_Categories)
  qed
qed

lemma one_entry_at_end:
  assumes "xs = filter (\<lambda>x. entity_id x \<noteq> i) ys @ [v]" and "entity_id v = i"
  shows "filter (\<lambda>x. entity_id x = i) xs = [v] \<and> xs \<noteq> [] \<and> last xs = v"
proof -
  have "filter (\<lambda>x. entity_id x = i) (filter (\<lambda>x. entity_id x \<noteq> i) ys) = []"
    by (induction ys) simp_all
  with assms show ?thesis by simp
qed

text \<open>
  C1. Enqueueing a non-empty sequence of entities that share one identity, in one
  category, leaves exactly one pending entry with that identity in the category's
  sequence; it is the last entity enqueued (for a block, as \<^verbatim>\<open>hydrateBlock\<close>
  returns it) and it stands at the end of the sequence. Whatever happens to a new client,
  the identities in each pending sequence stay pairwise different. \<^verbatim>\<open>hydrateBlock\<close>
  is taken to return a block with the identity of the one it is given.
\<close>

theorem pending_one_entry_per_identity:
  assumes "\<forall>b. entity_id (hydrateBlock b) = entity_id b"
    and "es \<noteq> []" and "\<forall>e\<in>set es. entity_id e = i"
  shows "(let bs = Blocks (updatedData (enqueue_all hydrateBlock es BlockType c))
          in filter (\<lambda>x. entity_id x = i) bs = [hydrateBlock (last es)] \<and>
             bs \<noteq> [] \<and> last bs = hydrateBlock (last es)) \<and>
         (let cs = Categories (updatedData (enqueue_all hydrateBlock es CategoryType c))
          in filter (\<lambda>x. entity_id x = i) cs = [last es] \<and> cs \<noteq> [] \<and> last cs = last es) \<and>
         ids_distinct (run hydrateBlock compareVersions inputs (new_WSClient url))"
proof -
  have hb: "\<And>b. entity_id (hydrateBlock b) = entity_id b"
    using assms(1) by simp
  have l: "entity_id (last es) = i"
    using assms(2,3) by simp
  have "entity_id (hydrateBlock (last es)) = i"
    using hb l by simp
  from one_entry_at_end [OF enqueue_all_Blocks [OF hb assms(2,3)] this]
  have blocks: "let bs = Blocks (updatedData (enqueue_all hydrateBlock es BlockType c))
          in filter (\<lambda>x. entity_id x = i) bs = [hydrateBlock (last es)] \<and>
             bs \<noteq> [] \<and> last bs = hydrateBlock (last es)"
    by (simp add: Let_def)
  from one_entry_at_end [OF enqueue_all_Categories [OF assms(2,3)] l]
  have cats: "let cs = Categories (updatedData (enqueue_all hydrateBlock es CategoryType c))
          in filter (\<lambda>x. entity_id x = i) cs = [last es] \<and> cs \<noteq> [] \<and> last cs = last es"
    by (simp add: Let_def)
  have "ids_distinct (run hydrateBlock compareVersions inputs (new_WSClient url))"
    using hb new_ids_distinct by (rule run_ids_distinct)
  with blocks cats show ?thesis by blast
qed

theorem pending_one_entry_per_identity_witness:
  "Blocks (updatedData (enqueue_all (\<lambda>b. b) [b1, b1_v2] BlockType (new_WSClient None))) = [b1_v2] \<and>
   Categories (updatedData (enqueue_all (\<lambda>b. b) [b1, b1_v2] CategoryType (new_WSClient None))) = [b1_v2] \<and>
   ids_distinct (run (\<lambda>b. b) (\<lambda>a b. 0)
     [UpdateHandlerCall (Some b1, BlockType), Tick, UpdateHandlerCall (Some b1_v2, BlockType)]
     (new_WSClient None))"
proof -
  have h1: "\<forall>b. entity_id ((\<lambda>b. b) b) = entity_id b" by simp
  have h2: "[b1, b1_v2] \<noteq> []" by simp
  have h3: "\<forall>e\<in>set [b1, b1_v2]. entity_id e = ''b1''" by (simp add: b1_def b1_v2_def)
  have e1: "Blocks (updatedData (enqueue_all (\<lambda>b. b) [b1, b1_v2] BlockType (new_WSClient None))) = [b1_v2]"
    by (simp add: queue_Blocks new_WSClient_def b1_def b1_v2_def)
  have e2: "Categories (updatedData (enqueue_all (\<lambda>b. b) [b1, b1_v2] CategoryType (new_WSClient None))) = [b1_v2]"
    by (simp add: queue_Categories new_WSClient_def b1_def b1_v2_def)
  from pending_one_entry_per_identity [OF h1 h2 h3, of "new_WSClient None" "\<lambda>a b. 0"
      "[UpdateHandlerCall (Some b1, BlockType), Tick, UpdateHandlerCall (Some b1_v2, BlockType)]" None]
  show ?thesis using e1 e2 by (simp add: Let_def)
qed

subsection \<open>Calling handlers\<close>

lemma out_call_handler: "out (call_handler hb h e c) = out c @ [e]"
proof -
  have "out (foldl (\<lambda>c' m. updateHandler hb m c') c' ms) = out c'" for c' ms
    by (induction ms arbitrary: c') (auto simp: updateHandler_def queue_frame split: option.split)
  then show ?thesis by (simp add: call_handler_def)
qed

lemma out_fire_handlers: "out (fire_handlers hb mk hs c) = out c @ fired hb mk hs c"
  by (induction hs arbitrary: c) (simp_all add: out_call_handler)

lemma length_fired: "length (fired hb mk hs c) = length hs"
  by (induction hs arbitrary: c) simp_all

text \<open>When the argument does not change under re-entry, every handler gets the same.\<close>

lemma fired_const:
  assumes "I c"
    and "\<And>c e. I c \<Longrightarrow> I (c\<lparr>out := out c @ [e]\<rparr>)"
    and "\<And>c d ty. I c \<Longrightarrow> I (queueUpdateNotification hb d ty c)"
    and "\<And>h c. I c \<Longrightarrow> mk h c = g h"
  shows "fired hb mk hs c = map g hs"
  using assms(1)
proof (induction hs arbitrary: c)
  case Nil
  then show ?case by simp
next
  case (Cons h hs)
  have "I (call_handler hb h (mk h c) c)"
    using Cons.prems assms(2,3) by (rule call_handler_keeps)
  then show ?case by (simp add: Cons.IH assms(4) [OF Cons.prems])
qed

lemma fire_handlers_frame:
  "state (fire_handlers hb mk hs c) = state c"
  "onStateChange (fire_handlers hb mk hs c) = onStateChange c"
  "onReconnect (fire_handlers hb mk hs c) = onReconnect c"
  "onChange (fire_handlers hb mk hs c) = onChange c"
  "onError (fire_handlers hb mk hs c) = onError c"
  "onConfigChange (fire_handlers hb mk hs c) = onConfigChange c"
  "ws (fire_handlers hb mk hs c) = ws c"
  "client (fire_handlers hb mk hs c) = client c"
  "errorPollId (fire_handlers hb mk hs c) = errorPollId c"
  "now (fire_handlers hb mk hs c) = now c"
proof -
  show "state (fire_handlers hb mk hs c) = state c"
    by (rule fire_handlers_keeps [where P = "\<lambda>c'. state c' = state c"]) (simp_all add: queue_frame)
  show "onStateChange (fire_handlers hb mk hs c) = onStateChange c"
    by (rule fire_handlers_keeps [where P = "\<lambda>c'. onStateChange c' = onStateChange c"]) (simp_all add: queue_frame)
  show "onReconnect (fire_handlers hb mk hs c) = onReconnect c"
    by (rule fire_handlers_keeps [where P = "\<lambda>c'. onReconnect c' = onReconnect c"]) (simp_all add: queue_frame)
  show "onChange (fire_handlers hb mk hs c) = onChange c"
    by (rule fire_handlers_keeps [where P = "\<lambda>c'. onChange c' = onChange c"]) (simp_all add: queue_frame)
  show "onError (fire_handlers hb mk hs c) = onError c"
    by (rule fire_handlers_keeps [where P = "\<lambda>c'. onError c' = onError c"]) (simp_all add: queue_frame)
  show "onConfigChange (fire_handlers hb mk hs c) = onConfigChange c"
    by (rule fire_handlers_keeps [where P = "\<lambda>c'. onConfigChange c' = onConfigChange c"]) (simp_all add: queue_frame)
  show "ws (fire_handlers hb mk hs c) = ws c"
    by (rule fire_handlers_keeps [where P = "\<lambda>c'. ws c' = ws c"]) (simp_all add: queue_frame)
  show "client (fire_handlers hb mk hs c) = client c"
    by (rule fire_handlers_keeps [where P = "\<lambda>c'. client c' = client c"]) (simp_all add: queue_frame)
  show "errorPollId (fire_handlers hb mk hs c) = errorPollId c"
    by (rule fire_handlers_keeps [where P = "\<lambda>c'. errorPollId c' = errorPollId c"]) (simp_all add: queue_frame)
  show "now (fire_handlers hb mk hs c) = now c"
    by (rule fire_handlers_keeps [where P = "\<lambda>c'. now c' = now c"]) (simp_all add: queue_frame)
qed

lemma fired_state_change:
  "fired hb (\<lambda>h c'. StateChangeCall h arg (state c')) hs c =
     map (\<lambda>h. StateChangeCall h arg (state c)) hs"
  by (rule fired_const [where I = "\<lambda>c'. state c' = state c"]) (simp_all add: queue_frame)

lemma fired_reconnect: "fired hb (\<lambda>h c'. ReconnectCall h) hs c = map ReconnectCall hs"
  by (rule fired_const [where I = "\<lambda>c'. True"]) simp_all

lemma fired_change_calls:
  "map change_call (fired hb (\<lambda>h c'. ChangeCall h ty (f c')) hs c) = map (\<lambda>h. Some (h, ty)) hs"
  by (induction hs arbitrary: c) simp_all

subsection \<open>The flush\<close>

lemma out_flush:
  "out (flushUpdateNotifications hb c) =
     out c @ fired hb (\<lambda>h c'. ChangeCall h BlockType (Blocks (updatedData c'))) (Block (onChange c)) c
       @ fired hb (\<lambda>h c'. ChangeCall h CategoryType (Categories (updatedData c')))
           (Category (onChange c))
           (fire_handlers hb (\<lambda>h c'. ChangeCall h BlockType (Blocks (updatedData c')))
              (Block (onChange c)) c)"
  by (simp add: flushUpdateNotifications_def Let_def out_fire_handlers fire_handlers_frame)

lemma call_handler_Categories:
  assumes "\<forall>m\<in>set (reenters h). fst m = None \<or> snd m = BlockType"
  shows "Categories (updatedData (call_handler hb h e c)) = Categories (updatedData c)"
proof -
  have "\<forall>m\<in>set ms. fst m = None \<or> snd m = BlockType \<Longrightarrow>
        Categories (updatedData (foldl (\<lambda>c' m. updateHandler hb m c') c' ms)) =
        Categories (updatedData c')" for c' ms
    by (induction ms arbitrary: c')
       (auto simp: updateHandler_def queue_Blocks split: option.split)
  from this [OF assms] show ?thesis by (simp add: call_handler_def)
qed

lemma fire_handlers_Categories:
  assumes "\<forall>h\<in>set hs. \<forall>m\<in>set (reenters h). fst m = None \<or> snd m = BlockType"
  shows "Categories (updatedData (fire_handlers hb mk hs c)) = Categories (updatedData c)"
  using assms by (induction hs arbitrary: c) (simp_all add: call_handler_Categories)

lemma fired_Categories:
  assumes "\<forall>h\<in>set hs. \<forall>m\<in>set (reenters h). fst m = None \<or> snd m = BlockType"
  shows "fired hb (\<lambda>h c'. ChangeCall h CategoryType (Categories (updatedData c'))) hs c =
           map (\<lambda>h. ChangeCall h CategoryType (Categories (updatedData c))) hs"
  using assms by (induction hs arbitrary: c) (simp_all add: call_handler_Categories)

text \<open>
  C9, as the code has it. A flush records nothing but calls of change handlers: one call for each registered
  block handler, in order, then one for each registered category handler, in order,
  whatever the pending sequences hold. When no category update is pending and no
  handler called by the flush enqueues one, each category handler is called with the
  empty batch.
\<close>

theorem flush_calls_every_handler:
  "take (length (out c)) (out (flushUpdateNotifications hb c)) = out c \<and>
   map change_call (drop (length (out c)) (out (flushUpdateNotifications hb c))) =
     map (\<lambda>h. Some (h, BlockType)) (Block (onChange c)) @
     map (\<lambda>h. Some (h, CategoryType)) (Category (onChange c)) \<and>
   (Categories (updatedData c) = [] \<and>
    (\<forall>h\<in>set (Block (onChange c) @ Category (onChange c)).
       \<forall>m\<in>set (reenters h). fst m = None \<or> snd m = BlockType) \<longrightarrow>
    drop (length (out c) + length (Block (onChange c))) (out (flushUpdateNotifications hb c)) =
      map (\<lambda>h. ChangeCall h CategoryType []) (Category (onChange c)))"
proof (intro conjI impI)
  show "take (length (out c)) (out (flushUpdateNotifications hb c)) = out c"
    by (simp add: out_flush)
  show "map change_call (drop (length (out c)) (out (flushUpdateNotifications hb c))) =
     map (\<lambda>h. Some (h, BlockType)) (Block (onChange c)) @
     map (\<lambda>h. Some (h, CategoryType)) (Category (onChange c))"
    by (simp add: out_flush fired_change_calls)
next
  assume a: "Categories (updatedData c) = [] \<and>
    (\<forall>h\<in>set (Block (onChange c) @ Category (onChange c)).
       \<forall>m\<in>set (reenters h). fst m = None \<or> snd m = BlockType)"
  then have bl: "\<forall>h\<in>set (Block (onChange c)). \<forall>m\<in>set (reenters h). fst m = None \<or> snd m = BlockType"
    and ca: "\<forall>h\<in>set (Category (onChange c)). \<forall>m\<in>set (reenters h). fst m = None \<or> snd m = BlockType"
    by auto
  show "drop (length (out c) + length (Block (onChange c))) (out (flushUpdateNotifications hb c)) =
      map (\<lambda>h. ChangeCall h CategoryType []) (Category (onChange c))"
    using a by (simp add: out_flush length_fired fired_Categories [OF ca]
        fire_handlers_Categories [OF bl])
qed

lemmas example_defs =
  new_WSClient_def addOnChange_def updateHandler_def queueUpdateNotification_def
  setTimer_def clearTimer_def notificationDelay_def Let_def b1_def b1_v2_def b2_def

theorem flush_calls_every_handler_witness:
  "drop (length (out flush_example) + length (Block (onChange flush_example)))
     (out (flushUpdateNotifications (\<lambda>b. b) flush_example)) =
   [ChangeCall (Handler 2 []) CategoryType []]"
proof -
  have h: "Categories (updatedData flush_example) = [] \<and>
    (\<forall>h\<in>set (Block (onChange flush_example) @ Category (onChange flush_example)).
       \<forall>m\<in>set (reenters h). fst m = None \<or> snd m = BlockType)"
    by (simp add: flush_example_def example_defs)
  have c: "Category (onChange flush_example) = [Handler 2 []]"
    by (simp add: flush_example_def example_defs)
  from flush_calls_every_handler [of flush_example "\<lambda>b. b"] h
  have "drop (length (out flush_example) + length (Block (onChange flush_example)))
     (out (flushUpdateNotifications (\<lambda>b. b) flush_example)) =
      map (\<lambda>h. ChangeCall h CategoryType []) (Category (onChange flush_example))"
    by blast
  then show ?thesis by (simp add: c)
qed

text \<open>
  C9 as stated fails: only the block \<open>b1\<close> was enqueued before the flush, and the block
  handler enqueues the category update \<open>b2\<close> when the flush calls it. The category
  handler is then called with \<open>[b2]\<close>, not with the empty batch.
\<close>

theorem category_batch_not_empty:
  "Blocks (updatedData cross_example) = [b1] \<and>
   Categories (updatedData cross_example) = [] \<and>
   out (flushUpdateNotifications (\<lambda>b. b) cross_example) =
     [ChangeCall (Handler 1 [(Some b2, CategoryType)]) BlockType [b1],
      ChangeCall (Handler 2 []) CategoryType [b2]]"
  by (simp add: cross_example_def example_defs flushUpdateNotifications_def call_handler_def)

text \<open>The same when the debounce timer runs the flush, 100 ms after the enqueue.\<close>

lemma category_batch_not_empty_timed:
  "out (advance (\<lambda>b. b) 100 cross_example) =
     [TimerFired FlushTimer 1,
      ChangeCall (Handler 1 [(Some b2, CategoryType)]) BlockType [b1],
      ChangeCall (Handler 2 []) CategoryType [b2]]"
  by code_simp

lemma fire_handlers_append:
  "fire_handlers hb mk (xs @ ys) c = fire_handlers hb mk ys (fire_handlers hb mk xs c)"
  by (induction xs arbitrary: c) simp_all

lemma fired_nth:
  "fired hb mk (hs1 @ h # hs2) c ! length hs1 = mk h (fire_handlers hb mk hs1 c)"
  by (induction hs1 arbitrary: c) simp_all

lemma call_handler_last:
  assumes "reenters h = ms @ [(Some d, ty)]"
  shows "ty = BlockType \<Longrightarrow> \<exists>batch. Blocks (updatedData (call_handler hb h e x)) = batch @ [hb d]"
    and "ty = CategoryType \<Longrightarrow> \<exists>batch. Categories (updatedData (call_handler hb h e x)) = batch @ [d]"
  using assms by (simp_all add: call_handler_def updateHandler_def queue_Blocks queue_Categories)

lemma fire_handlers_last:
  assumes "reenters h = ms @ [(Some d, ty)]"
  shows "ty = BlockType \<Longrightarrow>
           \<exists>batch. Blocks (updatedData (fire_handlers hb mk (hs @ [h]) c)) = batch @ [hb d]"
    and "ty = CategoryType \<Longrightarrow>
           \<exists>batch. Categories (updatedData (fire_handlers hb mk (hs @ [h]) c)) = batch @ [d]"
  using call_handler_last [OF assms] by (simp_all add: fire_handlers_append)

lemma flush_block_call:
  assumes "Block (onChange c) = hs1 @ h # hs2"
  shows "out (flushUpdateNotifications hb c) ! (length (out c) + length hs1) =
           ChangeCall h BlockType
             (Blocks (updatedData
                (fire_handlers hb (\<lambda>h c'. ChangeCall h BlockType (Blocks (updatedData c'))) hs1 c)))"
proof -
  let ?mk = "\<lambda>h c'. ChangeCall h BlockType (Blocks (updatedData c'))"
  have "length hs1 < length (fired hb ?mk (Block (onChange c)) c)"
    by (simp add: length_fired assms)
  then show ?thesis
    by (simp add: out_flush nth_append assms fired_nth)
qed

lemma flush_category_call:
  assumes "Category (onChange c) = ks1 @ k # ks2"
  shows "out (flushUpdateNotifications hb c) !
           (length (out c) + length (Block (onChange c)) + length ks1) =
         ChangeCall k CategoryType
           (Categories (updatedData
              (fire_handlers hb (\<lambda>h c'. ChangeCall h CategoryType (Categories (updatedData c'))) ks1
                 (fire_handlers hb (\<lambda>h c'. ChangeCall h BlockType (Blocks (updatedData c')))
                    (Block (onChange c)) c))))"
  by (simp add: out_flush nth_append length_fired assms fired_nth)

text \<open>
  C2, as the code has it. The flush does not swap the buffer before the handlers run:
  each flush handler is called with the pending sequence of its category as it stands in
  the client at the moment of the call, after the handlers called before it in the same
  flush have run. The last update that a handler enqueues while it runs is at the end of
  its category's pending sequence in the client when the handler returns (a block as
  \<^verbatim>\<open>hydrateBlock\<close> returns it), so it lands in the buffer being flushed; when the
  handler that the flush calls next is of that category, it is the last entry of the
  batch that handler receives. The buffer is replaced by an empty one only after the last
  handler has returned, and is empty after every flush, whatever the handlers enqueued.
\<close>

theorem flush_resets_after_handlers:
  "updatedData (flushUpdateNotifications hb c) = \<lparr>Blocks = [], Categories = []\<rparr> \<and>
   (Block (onChange c) = hs1 @ h # hs2 \<longrightarrow>
    out (flushUpdateNotifications hb c) ! (length (out c) + length hs1) =
      ChangeCall h BlockType
        (Blocks (updatedData
           (fire_handlers hb (\<lambda>h c'. ChangeCall h BlockType (Blocks (updatedData c'))) hs1 c)))) \<and>
   (Category (onChange c) = ks1 @ k # ks2 \<longrightarrow>
    out (flushUpdateNotifications hb c) !
      (length (out c) + length (Block (onChange c)) + length ks1) =
      ChangeCall k CategoryType
        (Categories (updatedData
           (fire_handlers hb (\<lambda>h c'. ChangeCall h CategoryType (Categories (updatedData c'))) ks1
              (fire_handlers hb (\<lambda>h c'. ChangeCall h BlockType (Blocks (updatedData c')))
                 (Block (onChange c)) c))))) \<and>
   (Block (onChange c) = hs3 @ h1 # h2 # hs4 \<and> reenters h1 = ms1 @ [(Some d1, BlockType)] \<longrightarrow>
    (\<exists>batch. out (flushUpdateNotifications hb c) ! (length (out c) + length hs3 + 1) =
       ChangeCall h2 BlockType (batch @ [hb d1]))) \<and>
   (Block (onChange c) = hs5 @ [h3] \<and> Category (onChange c) = k1 # ks3 \<and>
    reenters h3 = ms2 @ [(Some d2, CategoryType)] \<longrightarrow>
    (\<exists>batch. out (flushUpdateNotifications hb c) ! (length (out c) + length (Block (onChange c))) =
       ChangeCall k1 CategoryType (batch @ [d2]))) \<and>
   (Category (onChange c) = ks4 @ k2 # k3 # ks5 \<and>
    reenters k2 = ms3 @ [(Some d3, CategoryType)] \<longrightarrow>
    (\<exists>batch. out (flushUpdateNotifications hb c) !
       (length (out c) + length (Block (onChange c)) + length ks4 + 1) =
       ChangeCall k3 CategoryType (batch @ [d3]))) \<and>
   (reenters h4 = ms4 @ [(Some d4, BlockType)] \<longrightarrow>
    (\<exists>batch. Blocks (updatedData (call_handler hb h4 e4 x4)) = batch @ [hb d4])) \<and>
   (reenters k4 = ms5 @ [(Some d5, CategoryType)] \<longrightarrow>
    (\<exists>batch. Categories (updatedData (call_handler hb k4 e5 x5)) = batch @ [d5]))"
proof (intro conjI impI)
  show "updatedData (flushUpdateNotifications hb c) = \<lparr>Blocks = [], Categories = []\<rparr>"
    by (simp add: flushUpdateNotifications_def Let_def)
next
  assume "Block (onChange c) = hs1 @ h # hs2"
  then show "out (flushUpdateNotifications hb c) ! (length (out c) + length hs1) =
      ChangeCall h BlockType
        (Blocks (updatedData
           (fire_handlers hb (\<lambda>h c'. ChangeCall h BlockType (Blocks (updatedData c'))) hs1 c)))"
    by (rule flush_block_call)
next
  assume "Category (onChange c) = ks1 @ k # ks2"
  then show "out (flushUpdateNotifications hb c) !
      (length (out c) + length (Block (onChange c)) + length ks1) =
      ChangeCall k CategoryType
        (Categories (updatedData
           (fire_handlers hb (\<lambda>h c'. ChangeCall h CategoryType (Categories (updatedData c'))) ks1
              (fire_handlers hb (\<lambda>h c'. ChangeCall h BlockType (Blocks (updatedData c')))
                 (Block (onChange c)) c))))"
    by (rule flush_category_call)
next
  assume a: "Block (onChange c) = hs3 @ h1 # h2 # hs4 \<and> reenters h1 = ms1 @ [(Some d1, BlockType)]"
  then have s: "Block (onChange c) = (hs3 @ [h1]) @ h2 # hs4" by simp
  from a fire_handlers_last(1) [of h1 ms1 d1 BlockType hb _ hs3 c]
  obtain batch where
    "Blocks (updatedData (fire_handlers hb
        (\<lambda>h c'. ChangeCall h BlockType (Blocks (updatedData c'))) (hs3 @ [h1]) c)) = batch @ [hb d1]"
    by blast
  with flush_block_call [OF s, of hb]
  show "\<exists>batch. out (flushUpdateNotifications hb c) ! (length (out c) + length hs3 + 1) =
       ChangeCall h2 BlockType (batch @ [hb d1])"
    by simp
next
  assume a: "Block (onChange c) = hs5 @ [h3] \<and> Category (onChange c) = k1 # ks3 \<and>
    reenters h3 = ms2 @ [(Some d2, CategoryType)]"
  then have s: "Category (onChange c) = [] @ k1 # ks3" by simp
  from a fire_handlers_last(2) [of h3 ms2 d2 CategoryType hb _ hs5 c]
  obtain batch where
    "Categories (updatedData (fire_handlers hb
        (\<lambda>h c'. ChangeCall h BlockType (Blocks (updatedData c'))) (hs5 @ [h3]) c)) = batch @ [d2]"
    by blast
  with flush_category_call [OF s, of hb] a
  show "\<exists>batch. out (flushUpdateNotifications hb c) ! (length (out c) + length (Block (onChange c))) =
       ChangeCall k1 CategoryType (batch @ [d2])"
    by simp
next
  assume a: "Category (onChange c) = ks4 @ k2 # k3 # ks5 \<and>
    reenters k2 = ms3 @ [(Some d3, CategoryType)]"
  then have s: "Category (onChange c) = (ks4 @ [k2]) @ k3 # ks5" by simp
  let ?c1 = "fire_handlers hb (\<lambda>h c'. ChangeCall h BlockType (Blocks (updatedData c')))
               (Block (onChange c)) c"
  from a fire_handlers_last(2) [of k2 ms3 d3 CategoryType hb _ ks4 ?c1]
  obtain batch where
    "Categories (updatedData (fire_handlers hb
        (\<lambda>h c'. ChangeCall h CategoryType (Categories (updatedData c'))) (ks4 @ [k2]) ?c1)) =
     batch @ [d3]"
    by blast
  with flush_category_call [OF s, of hb]
  show "\<exists>batch. out (flushUpdateNotifications hb c) !
       (length (out c) + length (Block (onChange c)) + length ks4 + 1) =
       ChangeCall k3 CategoryType (batch @ [d3])"
    by (simp add: add.assoc)
next
  assume "reenters h4 = ms4 @ [(Some d4, BlockType)]"
  then show "\<exists>batch. Blocks (updatedData (call_handler hb h4 e4 x4)) = batch @ [hb d4]"
    by (rule call_handler_last(1)) simp
next
  assume "reenters k4 = ms5 @ [(Some d5, CategoryType)]"
  then show "\<exists>batch. Categories (updatedData (call_handler hb k4 e5 x5)) = batch @ [d5]"
    by (rule call_handler_last(2)) simp
qed

theorem flush_resets_after_handlers_witness:
  "out (flushUpdateNotifications (\<lambda>b. b) reentry_example2) ! 0 =
     ChangeCall (Handler 1 [(Some b2, BlockType)]) BlockType [b1] \<and>
   (\<exists>batch. out (flushUpdateNotifications (\<lambda>b. b) reentry_example2) ! 1 =
      ChangeCall (Handler 2 []) BlockType (batch @ [b2])) \<and>
   out (flushUpdateNotifications (\<lambda>b. b) reentry_example3) ! 2 =
     ChangeCall (Handler 3 []) CategoryType [b2, b3] \<and>
   (\<exists>batch. out (flushUpdateNotifications (\<lambda>b. b) reentry_example3) ! 1 =
      ChangeCall (Handler 2 [(Some b3, CategoryType)]) CategoryType (batch @ [b2])) \<and>
   (\<exists>batch. out (flushUpdateNotifications (\<lambda>b. b) reentry_example3) ! 2 =
      ChangeCall (Handler 3 []) CategoryType (batch @ [b3])) \<and>
   updatedData (flushUpdateNotifications (\<lambda>b. b) reentry_example3) =
     \<lparr>Blocks = [], Categories = []\<rparr> \<and>
   (\<exists>batch. Blocks (updatedData (call_handler (\<lambda>b. b) (Handler 1 [(Some b2, BlockType)])
      (ReconnectCall (Handler 1 [(Some b2, BlockType)])) reentry_example2)) = batch @ [b2]) \<and>
   (\<exists>batch. Categories (updatedData (call_handler (\<lambda>b. b)
      (Handler 2 [(Some b3, CategoryType)])
      (ReconnectCall (Handler 2 [(Some b3, CategoryType)])) reentry_example3)) = batch @ [b3])"
proof -
  let ?H1 = "Handler 1 [(Some b2, BlockType)]"
  let ?H2 = "Handler 2 []"
  let ?K1 = "Handler 1 [(Some b2, CategoryType)]"
  let ?K2 = "Handler 2 [(Some b3, CategoryType)]"
  let ?K3 = "Handler 3 []"
  have e2: "Block (onChange reentry_example2) = [] @ ?H1 # [?H2]"
    "Block (onChange reentry_example2) = [] @ ?H1 # ?H2 # [] \<and>
     reenters ?H1 = [] @ [(Some b2, BlockType)]"
    "out reentry_example2 = []" "Blocks (updatedData reentry_example2) = [b1]"
    by (simp_all add: reentry_example2_def example_defs)
  have e3: "Category (onChange reentry_example3) = [?K2] @ ?K3 # []"
    "Block (onChange reentry_example3) = [] @ [?K1] \<and>
     Category (onChange reentry_example3) = ?K2 # [?K3] \<and>
     reenters ?K1 = [] @ [(Some b2, CategoryType)]"
    "Category (onChange reentry_example3) = [] @ ?K2 # ?K3 # [] \<and>
     reenters ?K2 = [] @ [(Some b3, CategoryType)]"
    "out reentry_example3 = []" "Block (onChange reentry_example3) = [?K1]"
    by (simp_all add: reentry_example3_def example_defs)
  have v: "Categories (updatedData
      (fire_handlers (\<lambda>b. b) (\<lambda>h c'. ChangeCall h CategoryType (Categories (updatedData c'))) [?K2]
         (fire_handlers (\<lambda>b. b) (\<lambda>h c'. ChangeCall h BlockType (Blocks (updatedData c')))
            (Block (onChange reentry_example3)) reentry_example3))) = [b2, b3]"
    by (simp add: reentry_example3_def example_defs call_handler_def b3_def)
  from flush_resets_after_handlers [where c = reentry_example2 and hb = "\<lambda>b. b"
      and ?hs1.0 = "[]" and h = ?H1 and ?hs2.0 = "[?H2]"
      and ?hs3.0 = "[]" and ?h1.0 = ?H1 and ?h2.0 = ?H2 and ?hs4.0 = "[]"
      and ?ms1.0 = "[]" and ?d1.0 = b2] e2
  have a: "out (flushUpdateNotifications (\<lambda>b. b) reentry_example2) ! 0 =
             ChangeCall ?H1 BlockType [b1] \<and>
           (\<exists>batch. out (flushUpdateNotifications (\<lambda>b. b) reentry_example2) ! 1 =
              ChangeCall ?H2 BlockType (batch @ [b2]))"
    by simp
  note inst = flush_resets_after_handlers [where c = reentry_example3 and hb = "\<lambda>b. b"
      and ?ks1.0 = "[?K2]" and k = ?K3 and ?ks2.0 = "[]"
      and ?hs5.0 = "[]" and ?h3.0 = ?K1 and ?k1.0 = ?K2 and ?ks3.0 = "[?K3]"
      and ?ms2.0 = "[]" and ?d2.0 = b2
      and ?ks4.0 = "[]" and ?k2.0 = ?K2 and ?k3.0 = ?K3 and ?ks5.0 = "[]"
      and ?ms3.0 = "[]" and ?d3.0 = b3]
  from inst e3(1)
  have "out (flushUpdateNotifications (\<lambda>b. b) reentry_example3) !
          (length (out reentry_example3) + length (Block (onChange reentry_example3)) +
           length [?K2]) =
        ChangeCall ?K3 CategoryType
          (Categories (updatedData
             (fire_handlers (\<lambda>b. b)
                (\<lambda>h c'. ChangeCall h CategoryType (Categories (updatedData c'))) [?K2]
                (fire_handlers (\<lambda>b. b)
                   (\<lambda>h c'. ChangeCall h BlockType (Blocks (updatedData c')))
                   (Block (onChange reentry_example3)) reentry_example3))))"
    by blast
  then have b1: "out (flushUpdateNotifications (\<lambda>b. b) reentry_example3) ! 2 =
                   ChangeCall ?K3 CategoryType [b2, b3]"
    unfolding v by (simp add: e3(4,5) numeral_2_eq_2)
  from inst e3(2)
  have "\<exists>batch. out (flushUpdateNotifications (\<lambda>b. b) reentry_example3) !
          (length (out reentry_example3) + length (Block (onChange reentry_example3))) =
        ChangeCall ?K2 CategoryType (batch @ [b2])"
    by blast
  then have b2: "\<exists>batch. out (flushUpdateNotifications (\<lambda>b. b) reentry_example3) ! 1 =
                   ChangeCall ?K2 CategoryType (batch @ [b2])"
    by (simp add: e3(4,5))
  from inst e3(3)
  have "\<exists>batch. out (flushUpdateNotifications (\<lambda>b. b) reentry_example3) !
          (length (out reentry_example3) + length (Block (onChange reentry_example3)) +
           length ([]::handler list) + 1) =
        ChangeCall ?K3 CategoryType (batch @ [b3])"
    by blast
  then have b3: "\<exists>batch. out (flushUpdateNotifications (\<lambda>b. b) reentry_example3) ! 2 =
                   ChangeCall ?K3 CategoryType (batch @ [b3])"
    by (simp add: e3(4,5) numeral_2_eq_2)
  from inst
  have b4: "updatedData (flushUpdateNotifications (\<lambda>b. b) reentry_example3) =
              \<lparr>Blocks = [], Categories = []\<rparr>"
    by blast
  have r: "reenters ?H1 = [] @ [(Some b2, BlockType)]"
    "reenters ?K2 = [] @ [(Some b3, CategoryType)]"
    by simp_all
  have b5: "\<exists>batch. Blocks (updatedData (call_handler (\<lambda>b. b) ?H1 (ReconnectCall ?H1)
               reentry_example2)) = batch @ [b2]"
    by (rule flush_resets_after_handlers [where hb = "\<lambda>b. b" and ?h4.0 = ?H1
          and ?ms4.0 = "[]" and ?d4.0 = b2,
          THEN conjunct2, THEN conjunct2, THEN conjunct2, THEN conjunct2, THEN conjunct2,
          THEN conjunct2, THEN conjunct1, THEN mp, OF r(1)])
  have b6: "\<exists>batch. Categories (updatedData (call_handler (\<lambda>b. b) ?K2 (ReconnectCall ?K2)
               reentry_example3)) = batch @ [b3]"
    by (rule flush_resets_after_handlers [where hb = "\<lambda>b. b" and ?k4.0 = ?K2
          and ?ms5.0 = "[]" and ?d5.0 = b3,
          THEN conjunct2, THEN conjunct2, THEN conjunct2, THEN conjunct2, THEN conjunct2,
          THEN conjunct2, THEN conjunct2, THEN mp, OF r(2)])
  from a b1 b2 b3 b4 b5 b6 show ?thesis by blast
qed

text \<open>
  C2 as stated fails: a category handler that enqueues \<open>b2\<close> while the flush
  calls it. The update is in neither pending sequence afterwards, and no handler has
  received it.
\<close>

theorem flush_loses_reentrant_update:
  "out (flushUpdateNotifications (\<lambda>b. b) reentry_example) =
     [ChangeCall (Handler 1 [(Some b2, CategoryType)]) CategoryType [b1]] \<and>
   b2 \<notin> set (Categories (updatedData (flushUpdateNotifications (\<lambda>b. b) reentry_example))) \<and>
   b2 \<notin> set (Blocks (updatedData (flushUpdateNotifications (\<lambda>b. b) reentry_example)))"
  by (simp add: reentry_example_def example_defs flushUpdateNotifications_def call_handler_def)

text \<open>
  The same client run by its timers: the first flush delivers \<open>b1\<close>, the handler
  enqueues \<open>b2\<close> during it, and the flush 100 ms later delivers the empty batch.
\<close>

lemma reentrant_update_not_delivered:
  "out (advance (\<lambda>b. b) 200 reentry_example) =
     [TimerFired FlushTimer 1,
      ChangeCall (Handler 1 [(Some b2, CategoryType)]) CategoryType [b1],
      TimerFired FlushTimer 2,
      ChangeCall (Handler 1 [(Some b2, CategoryType)]) CategoryType []]"
  by code_simp

subsection \<open>Lifecycle, teardown and commands\<close>

lemma out_state_handlers:
  "out (fire_handlers hb (\<lambda>h c'. StateChangeCall h arg (state c')) hs c) =
     out c @ map (\<lambda>h. StateChangeCall h arg (state c)) hs"
  by (simp add: out_fire_handlers fired_state_change)

lemma setTimer_frame:
  "out (setTimer k d c) = out c"
  "state (setTimer k d c) = state c"
  "client (setTimer k d c) = client c"
  "errorPollId (setTimer k d c) = errorPollId c"
  "onReconnect (setTimer k d c) = onReconnect c"
  "onStateChange (setTimer k d c) = onStateChange c"
  by (simp_all add: setTimer_def)

text \<open>
  C4, as the code has it. When the transport reports connected (\<^verbatim>\<open>onConnect\<close> of the
  relay, \<^verbatim>\<open>ws.onopen\<close> of a socket) the client calls every registered state-change
  handler with \<^verbatim>\<open>'open'\<close>, in registration order, and then sets its state to
  \<^verbatim>\<open>'open'\<close>: each handler is called while the field \<^verbatim>\<open>state\<close> still holds the
  value from before the transition. The same holds with \<^verbatim>\<open>'close'\<close> when the relay
  reports close or the socket held closes.
\<close>

theorem state_set_after_handlers:
  "out (plugin_onConnect hb c) =
     out c @ map (\<lambda>h. StateChangeCall h Open (state c)) (onStateChange c) \<and>
   state (plugin_onConnect hb c) = Open \<and>
   out (ws_onopen hb c) =
     out c @ map (\<lambda>h. StateChangeCall h Open (state c)) (onStateChange c) \<and>
   state (ws_onopen hb c) = Open \<and>
   out (plugin_onClose hb n c) =
     out c @ map (\<lambda>h. StateChangeCall h Close (state c)) (onStateChange c) \<and>
   state (plugin_onClose hb n c) = Close \<and>
   (ws c = Some s \<longrightarrow>
    out (ws_onclose hb s c) =
      out c @ map (\<lambda>h. StateChangeCall h Close (state c)) (onStateChange c) \<and>
    state (ws_onclose hb s c) = Close)"
proof (intro conjI impI)
  show "out (plugin_onConnect hb c) =
     out c @ map (\<lambda>h. StateChangeCall h Open (state c)) (onStateChange c)"
    by (simp add: plugin_onConnect_def out_state_handlers)
  show "state (plugin_onConnect hb c) = Open"
    by (simp add: plugin_onConnect_def)
  show "out (ws_onopen hb c) =
     out c @ map (\<lambda>h. StateChangeCall h Open (state c)) (onStateChange c)"
    by (simp add: ws_onopen_def out_state_handlers)
  show "state (ws_onopen hb c) = Open"
    by (simp add: ws_onopen_def)
  show "out (plugin_onClose hb n c) =
     out c @ map (\<lambda>h. StateChangeCall h Close (state c)) (onStateChange c)"
    by (simp add: plugin_onClose_def Let_def out_state_handlers setTimer_frame split: option.split)
  show "state (plugin_onClose hb n c) = Close"
    by (simp add: plugin_onClose_def Let_def setTimer_frame split: option.split)
next
  assume "ws c = Some s"
  then show "out (ws_onclose hb s c) =
      out c @ map (\<lambda>h. StateChangeCall h Close (state c)) (onStateChange c)"
    by (simp add: ws_onclose_def Let_def out_state_handlers setTimer_frame)
next
  assume "ws c = Some s"
  then show "state (ws_onclose hb s c) = Close"
    by (simp add: ws_onclose_def Let_def setTimer_frame)
qed

lemmas registry_defs =
  addOnChange_def addOnReconnect_def addOnStateChange_def addOnError_def
  addOnConfigChange_def open_ws_def initPlugin_def

theorem state_set_after_handlers_witness:
  "out (ws_onclose (\<lambda>b. b) 0 standalone_example) =
     [WsNew 0, StateChangeCall (Handler 0 []) Close Init] \<and>
   state (ws_onclose (\<lambda>b. b) 0 standalone_example) = Close"
proof -
  have h: "ws standalone_example = Some 0"
    by (simp add: standalone_example_def registry_defs new_WSClient_def)
  have o: "out standalone_example = [WsNew 0]"
    and s: "state standalone_example = Init"
    and r: "onStateChange standalone_example = [Handler 0 []]"
    by (simp_all add: standalone_example_def registry_defs new_WSClient_def)
  from state_set_after_handlers [of "\<lambda>b. b" standalone_example 0 0] h
  show ?thesis by (simp add: o s r)
qed

text \<open>
  C4 as stated fails: in plugin mode, on the first connect of a client in state
  \<^verbatim>\<open>'init'\<close>, the handler is called with \<^verbatim>\<open>'open'\<close> while the field \<^verbatim>\<open>state\<close>
  is still \<^verbatim>\<open>'init'\<close>.
\<close>

theorem handler_sees_previous_state:
  "out (plugin_onConnect (\<lambda>b. b) plugin_example) = [StateChangeCall (Handler 1 []) Open Init]"
  by (simp add: plugin_example_def registry_defs new_WSClient_def plugin_onConnect_def
      call_handler_def)

text \<open>
  C7. After \<^verbatim>\<open>close()\<close> with a transport active, the state-change, reconnect, error
  and both per-category change registries are empty and the config-change registry is as
  it was; with no transport active \<^verbatim>\<open>close()\<close> changes nothing.
\<close>

theorem close_clears_registries:
  "(hasConn c \<longrightarrow>
      onStateChange (close b c) = [] \<and> onReconnect (close b c) = [] \<and>
      onError (close b c) = [] \<and> onChange (close b c) = \<lparr>Block = [], Category = []\<rparr> \<and>
      onConfigChange (close b c) = onConfigChange c) \<and>
   (\<not> hasConn c \<longrightarrow> close b c = c)"
  by (simp add: close_def Let_def split: option.split ws_close.split)

theorem close_clears_registries_witness:
  "onStateChange (close CloseReturns standalone_example) = [] \<and>
   onReconnect (close CloseReturns standalone_example) = [] \<and>
   onError (close CloseReturns standalone_example) = [] \<and>
   onChange (close CloseReturns standalone_example) = \<lparr>Block = [], Category = []\<rparr> \<and>
   onConfigChange (close CloseReturns standalone_example) = [Handler 5 []] \<and>
   close CloseReturns unopened_example = unopened_example"
proof -
  have h1: "hasConn standalone_example"
    by (simp add: hasConn_def standalone_example_def registry_defs new_WSClient_def)
  have h2: "\<not> hasConn unopened_example"
    by (simp add: hasConn_def unopened_example_def registry_defs new_WSClient_def)
  have c: "onConfigChange standalone_example = [Handler 5 []]"
    by (simp add: standalone_example_def registry_defs new_WSClient_def)
  from close_clears_registries [of standalone_example CloseReturns]
    close_clears_registries [of unopened_example CloseReturns] h1 h2
  show ?thesis by (simp add: c)
qed

text \<open>
  C8. With neither a socket nor a relay set, each of the five command methods returns
  the client as it was, except for the assertion failure it records: nothing is sent and
  no field of the client changes.
\<close>

theorem commands_skipped_without_transport:
  assumes "ws c = None" and "client c = None"
  shows "\<not> hasConn c \<and>
    authenticate wid tok c =
      c\<lparr>out := out c @ [AssertFailure ''WSClient.addBlocks: ws is not open'']\<rparr> \<and>
    subscribeToBlocks wid ids rtok c =
      c\<lparr>out := out c @ [AssertFailure ''WSClient.subscribeToBlocks: ws is not open'']\<rparr> \<and>
    unsubscribeFromBlocks wid ids rtok c =
      c\<lparr>out := out c @ [AssertFailure ''WSClient.removeBlocks: ws is not open'']\<rparr> \<and>
    subscribeToWorkspace wid c =
      c\<lparr>out := out c @ [AssertFailure ''WSClient.subscribeToWorkspace: ws is not open'']\<rparr> \<and>
    unsubscribeToWorkspace wid c =
      c\<lparr>out := out c @ [AssertFailure ''WSClient.subscribeToWorkspace: ws is not open'']\<rparr>"
  using assms
  by (simp add: hasConn_def authenticate_def subscribeToBlocks_def unsubscribeFromBlocks_def
      subscribeToWorkspace_def unsubscribeToWorkspace_def assertFailure_def)

theorem commands_skipped_without_transport_witness:
  "out (subscribeToBlocks ''w1'' [''b1''] '''' unopened_example) =
     [AssertFailure ''WSClient.subscribeToBlocks: ws is not open''] \<and>
   state (subscribeToBlocks ''w1'' [''b1''] '''' unopened_example) = Init"
proof -
  have h1: "ws unopened_example = None" and h2: "client unopened_example = None"
    and o: "out unopened_example = []" and s: "state unopened_example = Init"
    by (simp_all add: unopened_example_def registry_defs new_WSClient_def)
  from commands_skipped_without_transport [OF h1 h2, of "''w1''" "''x''" "[''b1'']" "''''"]
  show ?thesis by (simp add: o s)
qed

subsection \<open>The relay after close\<close>

lemma open_ws_keeps_relay: "client c \<noteq> None \<Longrightarrow> client (open_ws c) \<noteq> None"
  by (auto simp: open_ws_def)

lemma plugin_onReconnect_client: "client (plugin_onReconnect hb c) = client c"
  by (simp add: plugin_onReconnect_def plugin_onConnect_def Let_def fire_handlers_frame)

lemma run_timer_keeps_relay:
  assumes "client c \<noteq> None"
  shows "client (run_timer hb t c) \<noteq> None"
proof (cases "kind t")
  case FlushTimer
  with assms show ?thesis
    by (simp add: run_timer_def flushUpdateNotifications_def Let_def fire_handlers_frame
        clearTimer_def)
next
  case ReopenTimer
  have "client (open_ws (clearTimer (handle t) c\<lparr>out := x\<rparr>)) \<noteq> None" for x
    by (rule open_ws_keeps_relay) (simp add: clearTimer_def assms)
  with ReopenTimer show ?thesis
    by (simp add: run_timer_def reopen_def Let_def fire_handlers_frame)
next
  case PollTimer
  with assms show ?thesis
    by (simp add: run_timer_def poll_def Let_def plugin_onReconnect_client clearTimer_def
        split: option.split)
next
  case PluginReconnectTimer
  with assms show ?thesis
    by (simp add: run_timer_def reconnect_after_update_def Let_def plugin_onReconnect_client
        clearTimer_def)
qed

lemma run_due_keeps_relay: "client c \<noteq> None \<Longrightarrow> client (run_due hb ts c) \<noteq> None"
proof (induction ts arbitrary: c)
  case Nil
  then show ?case by simp
next
  case (Cons t ts)
  show ?case
  proof (cases "t \<in> set (timers c)")
    case True
    from Cons.IH [OF run_timer_keeps_relay [OF Cons.prems]] True show ?thesis by simp
  next
    case False
    from Cons.IH [OF Cons.prems] False show ?thesis by simp
  qed
qed

lemma tick_keeps_relay: "client c \<noteq> None \<Longrightarrow> client (tick hb c) \<noteq> None"
  by (simp add: tick_def Let_def run_due_keeps_relay)

lemma updateHandler_client: "client (updateHandler hb m c) = client c"
  by (cases m) (simp add: updateHandler_def queue_frame split: option.split)

lemma sendCommand_client: "client (sendCommand cmd c) = client c"
  by (simp add: sendCommand_def split: option.split)

lemma step_keeps_relay:
  assumes "client c \<noteq> None"
  shows "client (step hb cv i c) \<noteq> None"
proof (cases i)
  case OpenCall
  with assms show ?thesis by (simp add: open_ws_keeps_relay)
next
  case (CloseCall b)
  with assms show ?thesis by (simp add: close_def Let_def)
next
  case (PluginStatusesChanged sts)
  with assms show ?thesis
    by (simp add: pluginStatusesChangedHandler_def Let_def setTimer_frame split: option.split)
next
  case (WsMessage s e)
  with assms show ?thesis
    by (cases e) (simp_all add: ws_onmessage_def updateHandler_client)
next
  case (RelayConn r)
  with assms show ?thesis by auto
next
  case Tick
  with assms show ?thesis by (simp add: tick_keeps_relay)
qed (use assms in \<open>simp_all add: fire_handlers_frame updateHandler_client sendCommand_client
      plugin_onReconnect_client setTimer_frame
      initPlugin_def addOnChange_def removeOnChange_def addOnReconnect_def
      removeOnReconnect_def addOnStateChange_def removeOnStateChange_def addOnError_def
      removeOnError_def addOnConfigChange_def removeOnConfigChange_def
      updateClientConfigHandler_def setOnAppVersionChangeHandler_def authenticate_def
      assertFailure_def
      subscribeToBlocks_def unsubscribeToWorkspace_def subscribeToWorkspace_def
      unsubscribeFromBlocks_def ws_onopen_def ws_onerror_def ws_onclose_def
      plugin_onConnect_def plugin_onError_def plugin_onClose_def Let_def
      split: ChangeHandlerType.split option.split\<close>)

lemma run_keeps_relay: "client c \<noteq> None \<Longrightarrow> client (run hb cv is c) \<noteq> None"
proof (induction "is" arbitrary: c)
  case Nil
  then show ?case by simp
next
  case (Cons i "is")
  from Cons.IH [OF step_keeps_relay [OF Cons.prems]] show ?case by simp
qed

lemma relay_send:
  assumes "client c \<noteq> None"
  shows "sendCommand cmd c = c\<lparr>out := out c @ [RelaySend (clientPrefix c @ action cmd) (payload cmd)]\<rparr>"
  using assms by (auto simp: sendCommand_def)

text \<open>
  C10, as the code has it. After \<^verbatim>\<open>close()\<close> in plugin mode the relay is still set,
  \<^verbatim>\<open>hasConn()\<close> is true, all registries but the config-change one are empty, and
  from then on, whatever else happens to the client, every command method passes the
  transport check: the four subscribe and unsubscribe commands, and \<^verbatim>\<open>authenticate\<close>
  with a non-empty token, send their command through the relay under the prefixed
  action; \<^verbatim>\<open>authenticate\<close> with an empty token returns without sending.
\<close>

theorem relay_kept_after_close:
  assumes "client c = Some relay"
  shows "client (close b c) = Some relay \<and> hasConn (close b c) \<and>
    onStateChange (close b c) = [] \<and> onReconnect (close b c) = [] \<and>
    onError (close b c) = [] \<and> onChange (close b c) = \<lparr>Block = [], Category = []\<rparr> \<and>
    onConfigChange (close b c) = onConfigChange c \<and>
    (let c' = run hb cv inputs (close b c)
     in hasConn c' \<and>
        subscribeToBlocks wid ids rtok c' =
          c'\<lparr>out := out c' @ [RelaySend (clientPrefix c' @ ACTION_SUBSCRIBE_BLOCKS)
             \<lparr>token = None, workspaceId = Some wid, blockIds = Some ids,
              readToken = Some rtok\<rparr>]\<rparr> \<and>
        unsubscribeFromBlocks wid ids rtok c' =
          c'\<lparr>out := out c' @ [RelaySend (clientPrefix c' @ ACTION_UNSUBSCRIBE_BLOCKS)
             \<lparr>token = None, workspaceId = Some wid, blockIds = Some ids,
              readToken = Some rtok\<rparr>]\<rparr> \<and>
        subscribeToWorkspace wid c' =
          c'\<lparr>out := out c' @ [RelaySend (clientPrefix c' @ ACTION_SUBSCRIBE_WORKSPACE)
             \<lparr>token = None, workspaceId = Some wid, blockIds = None, readToken = None\<rparr>]\<rparr> \<and>
        unsubscribeToWorkspace wid c' =
          c'\<lparr>out := out c' @ [RelaySend (clientPrefix c' @ ACTION_UNSUBSCRIBE_WORKSPACE)
             \<lparr>token = None, workspaceId = Some wid, blockIds = None, readToken = None\<rparr>]\<rparr> \<and>
        (tok \<noteq> '''' \<longrightarrow>
         authenticate wid tok c' =
           c'\<lparr>out := out c' @ [RelaySend (clientPrefix c' @ ACTION_AUTH)
              \<lparr>token = Some tok, workspaceId = Some wid, blockIds = None,
               readToken = None\<rparr>]\<rparr>) \<and>
        authenticate wid '''' c' = c')"
proof -
  have cl: "client (close b c) = Some relay"
    using assms by (simp add: close_def hasConn_def Let_def)
  have hc: "hasConn c"
    using assms by (simp add: hasConn_def)
  have regs: "onStateChange (close b c) = [] \<and> onReconnect (close b c) = [] \<and>
    onError (close b c) = [] \<and> onChange (close b c) = \<lparr>Block = [], Category = []\<rparr> \<and>
    onConfigChange (close b c) = onConfigChange c"
    using hc assms by (simp add: close_def Let_def)
  define c' where "c' = run hb cv inputs (close b c)"
  have r: "client c' \<noteq> None"
    unfolding c'_def by (rule run_keeps_relay) (simp add: cl)
  then have h: "hasConn c'"
    by (simp add: hasConn_def)
  have "hasConn c' \<and>
        subscribeToBlocks wid ids rtok c' =
          c'\<lparr>out := out c' @ [RelaySend (clientPrefix c' @ ACTION_SUBSCRIBE_BLOCKS)
             \<lparr>token = None, workspaceId = Some wid, blockIds = Some ids,
              readToken = Some rtok\<rparr>]\<rparr> \<and>
        unsubscribeFromBlocks wid ids rtok c' =
          c'\<lparr>out := out c' @ [RelaySend (clientPrefix c' @ ACTION_UNSUBSCRIBE_BLOCKS)
             \<lparr>token = None, workspaceId = Some wid, blockIds = Some ids,
              readToken = Some rtok\<rparr>]\<rparr> \<and>
        subscribeToWorkspace wid c' =
          c'\<lparr>out := out c' @ [RelaySend (clientPrefix c' @ ACTION_SUBSCRIBE_WORKSPACE)
             \<lparr>token = None, workspaceId = Some wid, blockIds = None, readToken = None\<rparr>]\<rparr> \<and>
        unsubscribeToWorkspace wid c' =
          c'\<lparr>out := out c' @ [RelaySend (clientPrefix c' @ ACTION_UNSUBSCRIBE_WORKSPACE)
             \<lparr>token = None, workspaceId = Some wid, blockIds = None, readToken = None\<rparr>]\<rparr> \<and>
        (tok \<noteq> '''' \<longrightarrow>
         authenticate wid tok c' =
           c'\<lparr>out := out c' @ [RelaySend (clientPrefix c' @ ACTION_AUTH)
              \<lparr>token = Some tok, workspaceId = Some wid, blockIds = None,
               readToken = None\<rparr>]\<rparr>) \<and>
        authenticate wid '''' c' = c'"
    using h by (simp add: relay_send [OF r] authenticate_def subscribeToBlocks_def
        unsubscribeFromBlocks_def subscribeToWorkspace_def unsubscribeToWorkspace_def)
  then show ?thesis
    using cl regs h hc unfolding c'_def
    by (simp add: Let_def hasConn_def)
qed

theorem relay_kept_after_close_witness:
  "(let c' = run (\<lambda>b. b) (\<lambda>a b. 0) [AddOnStateChange (Handler 2 [])] (close CloseReturns plugin_example)
    in authenticate ''w1'' ''secret'' c' =
         c'\<lparr>out := out c' @ [RelaySend (clientPrefix c' @ ACTION_AUTH)
            \<lparr>token = Some ''secret'', workspaceId = Some ''w1'', blockIds = None,
             readToken = None\<rparr>]\<rparr>) \<and>
   hasConn (close CloseReturns plugin_example)"
proof -
  have h: "client plugin_example = Some \<lparr>readyState = Some 1, callbacksSet = True\<rparr>"
    by (simp add: plugin_example_def registry_defs new_WSClient_def)
  have t: "''secret'' \<noteq> ''''" by simp
  from relay_kept_after_close [OF h, of CloseReturns "\<lambda>b. b" "\<lambda>a b. 0"
      "[AddOnStateChange (Handler 2 [])]" "''w1''" "[]" "''''" "''secret''"] t
  show ?thesis by (simp add: Let_def)
qed

text \<open>
  C10 as stated fails for \<^verbatim>\<open>authenticate\<close> with an empty token: after \<^verbatim>\<open>close()\<close>
  in plugin mode the relay is set, and the call sends nothing.
\<close>

theorem authenticate_after_close_sends_nothing:
  "client (close CloseReturns plugin_example) \<noteq> None \<and>
   out (close CloseReturns plugin_example) = [] \<and>
   out (authenticate ''w1'' '''' (close CloseReturns plugin_example)) = []"
  by (simp add: plugin_example_def registry_defs new_WSClient_def close_def hasConn_def
      authenticate_def Let_def)

subsection \<open>The timer queue stays consistent\<close>

lemma timers_ok_frame:
  "timers_ok (c\<lparr>out := a1\<rparr>) = timers_ok c"
  "timers_ok (c\<lparr>state := a2\<rparr>) = timers_ok c"
  "timers_ok (c\<lparr>now := a6\<rparr>) = timers_ok c"
  "timers_ok (c\<lparr>ws := a7\<rparr>) = timers_ok c"
  "timers_ok (c\<lparr>client := a8\<rparr>) = timers_ok c"
  "timers_ok (c\<lparr>onChange := a9\<rparr>) = timers_ok c"
  "timers_ok (c\<lparr>onReconnect := a10\<rparr>) = timers_ok c"
  "timers_ok (c\<lparr>onStateChange := a11\<rparr>) = timers_ok c"
  "timers_ok (c\<lparr>onError := a12\<rparr>) = timers_ok c"
  "timers_ok (c\<lparr>onConfigChange := a13\<rparr>) = timers_ok c"
  "timers_ok (c\<lparr>onPluginReconnect := a14\<rparr>) = timers_ok c"
  "timers_ok (c\<lparr>logged := a15\<rparr>) = timers_ok c"
  "timers_ok (c\<lparr>next_socket := a16\<rparr>) = timers_ok c"
  "timers_ok (c\<lparr>onAppVersionChangeHandler := a17\<rparr>) = timers_ok c"
  "timers_ok (c\<lparr>pluginId := a18\<rparr>) = timers_ok c"
  "timers_ok (c\<lparr>pluginVersion := a19\<rparr>) = timers_ok c"
  "timers_ok (c\<lparr>clientPrefix := a20\<rparr>) = timers_ok c"
  "timers_ok (c\<lparr>updatedData := a21\<rparr>) = timers_ok c"
  by (simp_all add: timers_ok_def poll_timers_def flush_timers_def cong: option.case_cong)

lemma queue_timers:
  "timers (queueUpdateNotification hb d ty c) =
     (case updateTimeout c of
        None \<Rightarrow> timers c
      | Some h \<Rightarrow> filter (\<lambda>t. handle t \<noteq> h) (timers c)) @
     [\<lparr>handle = next_handle c, due = now c + notificationDelay, kind = FlushTimer\<rparr>]"
  "next_handle (queueUpdateNotification hb d ty c) = next_handle c + 1"
  "updateTimeout (queueUpdateNotification hb d ty c) = Some (next_handle c)"
  by (cases ty; simp add: queueUpdateNotification_def setTimer_def clearTimer_def Let_def
        split: option.split)+

lemma drop_flush_timers:
  assumes "\<forall>t\<in>set ts. (handle t = h) = (kind t = FlushTimer)"
  shows "filter (\<lambda>t. handle t \<noteq> h \<and> kind t = FlushTimer) ts = []"
    and "filter (\<lambda>t. handle t \<noteq> h \<and> kind t = PollTimer) ts =
         filter (\<lambda>t. kind t = PollTimer) ts"
  using assms by (induction ts) auto

lemma timers_ok_queue:
  assumes "timers_ok c"
  shows "timers_ok (queueUpdateNotification hb d ty c)"
proof (cases "updateTimeout c")
  case None
  with assms show ?thesis
    by (auto simp: timers_ok_def queue_timers queue_frame poll_timers_def flush_timers_def
        filter_empty_conv less_Suc_eq split: option.splits)
next
  case (Some h)
  with assms have a: "\<forall>t\<in>set (timers c). (handle t = h) = (kind t = FlushTimer)"
    by (simp add: timers_ok_def)
  note f = drop_flush_timers [OF a]
  from Some assms show ?thesis
    by (auto simp: timers_ok_def queue_timers queue_frame poll_timers_def flush_timers_def
        f filter_empty_conv less_Suc_eq distinct_map_filter split: option.splits)
qed


lemma timers_ok_fire_handlers:
  assumes "timers_ok c"
  shows "timers_ok (fire_handlers hb mk hs c)"
  using assms by (rule fire_handlers_keeps) (simp_all add: timers_ok_frame timers_ok_queue)

lemma queue_poll_timers:
  assumes "timers_ok c"
  shows "poll_timers (queueUpdateNotification hb d ty c) = poll_timers c"
proof (cases "updateTimeout c")
  case None
  then show ?thesis by (simp add: poll_timers_def queue_timers)
next
  case (Some h)
  with assms have a: "\<forall>t\<in>set (timers c). (handle t = h) = (kind t = FlushTimer)"
    by (simp add: timers_ok_def)
  from Some show ?thesis
    by (simp add: poll_timers_def queue_timers drop_flush_timers [OF a])
qed

lemma poll_timers_out: "poll_timers (c\<lparr>out := x\<rparr>) = poll_timers c"
  by (simp add: poll_timers_def)

lemma fire_handlers_poll_timers:
  assumes "timers_ok c"
  shows "poll_timers (fire_handlers hb mk hs c) = poll_timers c"
proof -
  have "timers_ok (fire_handlers hb mk hs c) \<and>
        poll_timers (fire_handlers hb mk hs c) = poll_timers c"
    by (rule fire_handlers_keeps [where P = "\<lambda>c'. timers_ok c' \<and> poll_timers c' = poll_timers c"])
       (simp_all add: assms timers_ok_frame timers_ok_queue queue_poll_timers poll_timers_out)
  then show ?thesis by simp
qed

lemma timers_ok_setTimer:
  assumes "timers_ok c" and "k \<noteq> FlushTimer" and "k \<noteq> PollTimer"
  shows "timers_ok (setTimer k d c)"
  using assms
  by (auto simp: timers_ok_def setTimer_def poll_timers_def flush_timers_def less_Suc_eq
      split: option.splits)

lemma timers_ok_start_poll:
  assumes "timers_ok c" and "errorPollId c = None"
  shows "timers_ok ((setTimer PollTimer d c)\<lparr>errorPollId := Some (next_handle c)\<rparr>)"
  using assms
  by (auto simp: timers_ok_def setTimer_def poll_timers_def flush_timers_def less_Suc_eq
      split: option.splits)

lemma timers_ok_clear_other:
  assumes "timers_ok c" and "\<forall>t\<in>set (timers c). handle t = h \<longrightarrow> kind t \<noteq> PollTimer"
  shows "timers_ok (clearTimer h c)"
proof -
  have "filter (\<lambda>t. handle t \<noteq> h \<and> kind t = PollTimer) (timers c) =
        filter (\<lambda>t. kind t = PollTimer) (timers c)"
    using assms(2) by (auto intro: filter_cong)
  with assms(1) show ?thesis
    by (auto simp: timers_ok_def clearTimer_def poll_timers_def flush_timers_def
        filter_empty_conv distinct_map_filter split: option.splits)
qed

lemma timers_ok_stop_poll:
  assumes "timers_ok c" and "errorPollId c = Some h"
  shows "timers_ok ((clearTimer h c)\<lparr>errorPollId := None\<rparr>)"
proof -
  from assms have m: "map handle (filter (\<lambda>t. kind t = PollTimer) (timers c)) = [h]"
    by (simp add: timers_ok_def poll_timers_def)
  have "\<forall>t\<in>set (timers c). kind t = PollTimer \<longrightarrow> handle t = h"
  proof (intro ballI impI)
    fix t
    assume "t \<in> set (timers c)" and "kind t = PollTimer"
    then have "handle t \<in> set (map handle (filter (\<lambda>t. kind t = PollTimer) (timers c)))"
      by simp
    with m show "handle t = h" by simp
  qed
  then have "filter (\<lambda>t. handle t \<noteq> h \<and> kind t = PollTimer) (timers c) = []"
    by (auto simp: filter_empty_conv)
  with assms(1) show ?thesis
    by (auto simp: timers_ok_def clearTimer_def poll_timers_def flush_timers_def
        filter_empty_conv distinct_map_filter split: option.splits)
qed


lemma timers_ok_plugin_onReconnect:
  assumes "timers_ok c"
  shows "timers_ok (plugin_onReconnect hb c)"
  using assms
  by (simp add: plugin_onReconnect_def plugin_onConnect_def Let_def timers_ok_frame
      timers_ok_fire_handlers)

lemma timers_ok_plugin_onClose:
  assumes "timers_ok c"
  shows "timers_ok (plugin_onClose hb n c)"
proof -
  let ?c2 = "(fire_handlers hb (\<lambda>h c'. StateChangeCall h Close (state c'))
                 (onStateChange c) c)\<lparr>state := Close\<rparr>"
  have ok: "timers_ok ?c2"
    using assms by (simp add: timers_ok_frame timers_ok_fire_handlers)
  show ?thesis
  proof (cases "errorPollId ?c2")
    case None
    from timers_ok_start_poll [OF ok None] None show ?thesis
      by (simp add: plugin_onClose_def Let_def)
  next
    case (Some h)
    with ok show ?thesis
      by (simp add: plugin_onClose_def Let_def)
  qed
qed

lemma timers_ok_poll:
  assumes "timers_ok c"
  shows "timers_ok (poll hb c)"
proof (cases "conn_open c")
  case False
  with assms show ?thesis by (simp add: poll_def)
next
  case True
  have ok: "timers_ok (plugin_onReconnect hb c)"
    using assms by (rule timers_ok_plugin_onReconnect)
  show ?thesis
  proof (cases "errorPollId (plugin_onReconnect hb c)")
    case None
    with ok have "timers_ok ((plugin_onReconnect hb c)\<lparr>errorPollId := None\<rparr>)"
      by (simp add: timers_ok_def poll_timers_def flush_timers_def cong: option.case_cong)
    with True None show ?thesis by (simp add: poll_def Let_def)
  next
    case (Some h)
    from timers_ok_stop_poll [OF ok Some] True Some show ?thesis
      by (simp add: poll_def Let_def)
  qed
qed

lemma timers_ok_rearm:
  assumes "timers_ok c"
  shows "timers_ok (c\<lparr>timers := map (\<lambda>u. if handle u = h then u\<lparr>due := due u + 500\<rparr> else u)
                                   (timers c)\<rparr>)"
proof -
  let ?f = "\<lambda>u. if handle u = h then u\<lparr>due := due u + 500\<rparr> else u"
  have h: "map handle (map ?f ts) = map handle ts" for ts :: "timer list"
    by (induction ts) simp_all
  have k: "map handle (filter (\<lambda>t. kind t = k) (map ?f ts)) =
           map handle (filter (\<lambda>t. kind t = k) ts)" for ts :: "timer list" and k
    by (induction ts) simp_all
  have e: "(filter (\<lambda>t. kind t = k) (map ?f ts) = []) = (filter (\<lambda>t. kind t = k) ts = [])" for ts :: "timer list" and k
    by (induction ts) simp_all
  have a: "(\<forall>t\<in>set (map ?f ts). P (handle t) (kind t)) = (\<forall>t\<in>set ts. P (handle t) (kind t))" for ts :: "timer list" and P
    by (induction ts) simp_all
  from assms show ?thesis
    unfolding timers_ok_def poll_timers_def flush_timers_def
    using a [of "timers c" "\<lambda>x y. x < next_handle c"]
      a [of "timers c" "\<lambda>x y. (x = h') = (y = FlushTimer)" for h']
    by (simp add: h k e del: set_map map_map split: option.splits)
qed


lemma same_handle_same_timer:
  assumes "timers_ok c" and "t \<in> set (timers c)" and "u \<in> set (timers c)"
    and "handle u = handle t"
  shows "u = t"
proof -
  from assms(1) have "inj_on handle (set (timers c))"
    by (simp add: timers_ok_def distinct_map)
  with assms(2-4) show ?thesis by (auto dest: inj_onD)
qed

lemma timers_ok_open_ws: "timers_ok (open_ws c) = timers_ok c"
  by (simp add: open_ws_def timers_ok_frame split: option.split)

lemma timers_ok_flush:
  assumes "timers_ok c"
  shows "timers_ok (flushUpdateNotifications hb c)"
  using assms
  by (simp add: flushUpdateNotifications_def Let_def timers_ok_frame timers_ok_fire_handlers)

lemma timers_ok_run_timer:
  assumes "timers_ok c" and "t \<in> set (timers c)"
  shows "timers_ok (run_timer hb t c)"
proof (cases "kind t = PollTimer")
  case True
  have "timers_ok (poll hb (c\<lparr>timers := map (\<lambda>u. if handle u = handle t
            then u\<lparr>due := due u + 500\<rparr> else u) (timers c),
          out := out c @ [TimerFired PollTimer (handle t)]\<rparr>))"
    by (rule timers_ok_poll) (simp add: timers_ok_frame timers_ok_rearm assms(1))
  with True show ?thesis by (simp add: run_timer_def Let_def)
next
  case False
  have "\<forall>u\<in>set (timers c). handle u = handle t \<longrightarrow> kind u \<noteq> PollTimer"
    using same_handle_same_timer [OF assms] False by blast
  with assms(1) have "timers_ok (clearTimer (handle t) c)"
    by (rule timers_ok_clear_other)
  then have ok: "timers_ok ((clearTimer (handle t) c)\<lparr>out := x\<rparr>)" for x
    by (simp add: timers_ok_frame)
  show ?thesis
  proof (cases "kind t")
    case FlushTimer
    with ok show ?thesis
      by (simp add: run_timer_def Let_def timers_ok_flush)
  next
    case ReopenTimer
    with ok show ?thesis
      by (simp add: run_timer_def Let_def reopen_def timers_ok_fire_handlers timers_ok_open_ws)
  next
    case PollTimer
    with False show ?thesis by simp
  next
    case PluginReconnectTimer
    with ok show ?thesis
      by (simp add: run_timer_def Let_def reconnect_after_update_def
          timers_ok_plugin_onReconnect)
  qed
qed

lemma timers_ok_run_due:
  assumes "timers_ok c"
  shows "timers_ok (run_due hb ts c)"
  using assms by (induction ts arbitrary: c) (simp_all add: timers_ok_run_timer)

lemma timers_ok_tick:
  assumes "timers_ok c"
  shows "timers_ok (tick hb c)"
  using assms by (simp add: tick_def Let_def timers_ok_run_due timers_ok_frame)

lemma timers_ok_advance:
  assumes "timers_ok c"
  shows "timers_ok (advance hb n c)"
  using assms by (induction n) (simp_all add: timers_ok_tick)

lemma timers_ok_updateHandler:
  assumes "timers_ok c"
  shows "timers_ok (updateHandler hb m c)"
  using assms by (cases m) (simp add: updateHandler_def timers_ok_queue split: option.split)

lemma timers_ok_sendCommand: "timers_ok (sendCommand cmd c) = timers_ok c"
  by (simp add: sendCommand_def timers_ok_frame split: option.split)

lemma timers_ok_step:
  assumes "timers_ok c"
  shows "timers_ok (step hb cv i c)"
proof (cases i)
  case (CloseCall b)
  with assms show ?thesis
    by (simp add: close_def Let_def timers_ok_frame split: option.split ws_close.split)
next
  case (PluginStatusesChanged sts)
  with assms show ?thesis
    by (simp add: pluginStatusesChangedHandler_def Let_def timers_ok_frame timers_ok_setTimer
        split: option.split)
next
  case (WsClosed s)
  with assms show ?thesis
    by (simp add: ws_onclose_def Let_def timers_ok_frame timers_ok_setTimer
        timers_ok_fire_handlers)
next
  case (WsMessage s e)
  with assms show ?thesis
    by (cases e) (simp_all add: ws_onmessage_def timers_ok_updateHandler)
qed (use assms in \<open>simp_all add: timers_ok_frame timers_ok_fire_handlers
      timers_ok_updateHandler timers_ok_tick timers_ok_sendCommand
      timers_ok_plugin_onReconnect timers_ok_plugin_onClose timers_ok_open_ws
      initPlugin_def addOnChange_def removeOnChange_def addOnReconnect_def
      removeOnReconnect_def addOnStateChange_def removeOnStateChange_def addOnError_def
      removeOnError_def addOnConfigChange_def removeOnConfigChange_def
      updateClientConfigHandler_def setOnAppVersionChangeHandler_def authenticate_def
      assertFailure_def
      subscribeToBlocks_def unsubscribeToWorkspace_def subscribeToWorkspace_def
      unsubscribeFromBlocks_def ws_onopen_def ws_onerror_def
      plugin_onConnect_def plugin_onError_def Let_def
      split: ChangeHandlerType.split\<close>)

lemma timers_ok_run:
  assumes "timers_ok c"
  shows "timers_ok (run hb cv is c)"
  using assms by (induction "is" arbitrary: c) (simp_all add: timers_ok_step)

lemma timers_ok_new: "timers_ok (new_WSClient url)"
  by (simp add: new_WSClient_def timers_ok_def poll_timers_def flush_timers_def)

subsection \<open>The debounce timer\<close>

lemma tick_idle:
  assumes "\<forall>t\<in>set (timers c). now c + 1 < due t"
  shows "tick hb c = c\<lparr>now := now c + 1\<rparr>"
proof -
  have "filter (\<lambda>t. due t \<le> now c + 1) (timers c) = []"
    using assms by (auto simp: filter_empty_conv)
  then show ?thesis by (simp add: tick_def Let_def)
qed

lemma advance_idle:
  assumes "\<forall>t\<in>set (timers c). now c + n < due t"
  shows "advance hb n c = c\<lparr>now := now c + n\<rparr>"
  using assms
proof (induction n)
  case 0
  then show ?case by simp
next
  case (Suc n)
  have "\<forall>t\<in>set (timers c). now c + n < due t"
    using Suc.prems by (auto dest: Suc_lessD)
  then have "advance hb n c = c\<lparr>now := now c + n\<rparr>" by (rule Suc.IH)
  moreover have "tick hb (c\<lparr>now := now c + n\<rparr>) = c\<lparr>now := now c + n\<rparr>\<lparr>now := now c + n + 1\<rparr>"
    using Suc.prems tick_idle [of "c\<lparr>now := now c + n\<rparr>" hb] by simp
  ultimately show ?case by simp
qed

lemma tick_fires_one:
  assumes "filter (\<lambda>t. due t \<le> now c + 1) (timers c) = [t]"
  shows "tick hb c = run_timer hb t (c\<lparr>now := now c + 1\<rparr>)"
proof -
  have "t \<in> set (filter (\<lambda>t. due t \<le> now c + 1) (timers c))"
    unfolding assms by simp
  then have "t \<in> set (timers c)" by simp
  with assms show ?thesis by (simp add: tick_def Let_def)
qed

lemma advance_single_timer:
  assumes "timers c = [t]" and "due t = now c + Suc n"
  shows "advance hb n c = c\<lparr>now := now c + n\<rparr>"
    and "advance hb (Suc n) c = run_timer hb t (c\<lparr>now := now c + Suc n\<rparr>)"
proof -
  show i: "advance hb n c = c\<lparr>now := now c + n\<rparr>"
    by (rule advance_idle) (simp add: assms)
  have "tick hb (c\<lparr>now := now c + n\<rparr>) = run_timer hb t (c\<lparr>now := now c + n\<rparr>\<lparr>now := now c + n + 1\<rparr>)"
    using tick_fires_one [of "c\<lparr>now := now c + n\<rparr>" t hb] assms by simp
  then show "advance hb (Suc n) c = run_timer hb t (c\<lparr>now := now c + Suc n\<rparr>)"
    by (simp add: i)
qed

lemma enqueue_arms:
  assumes "\<forall>t\<in>set (timers c). kind t = FlushTimer \<and> updateTimeout c = Some (handle t)"
  shows "debounce_armed (queueUpdateNotification hb d ty c)"
proof (cases "updateTimeout c")
  case None
  with assms have "timers c = []" by (cases "timers c") auto
  with None show ?thesis
    by (simp add: debounce_armed_def queue_timers queue_frame)
next
  case (Some h)
  with assms have "filter (\<lambda>t. handle t \<noteq> h) (timers c) = []"
    by (auto simp: filter_empty_conv)
  with Some show ?thesis
    by (simp add: debounce_armed_def queue_timers queue_frame)
qed

lemma armed_wait:
  assumes "debounce_armed c" and "k < notificationDelay"
  shows "advance hb k c = c\<lparr>now := now c + k\<rparr>"
  using assms
  by (intro advance_idle) (auto simp: debounce_armed_def split: option.splits)

lemma armed_enqueue:
  assumes "debounce_armed c" and "k < notificationDelay"
  shows "debounce_armed (queueUpdateNotification hb d ty (advance hb k c))"
  unfolding armed_wait [OF assms]
  using assms(1)
  by (intro enqueue_arms) (auto simp: debounce_armed_def split: option.splits)

lemma burst_armed:
  assumes "debounce_armed c" and "\<forall>e\<in>set es. fst e < notificationDelay"
  shows "debounce_armed (burst hb es c) \<and> out (burst hb es c) = out c"
  using assms
proof (induction es arbitrary: c)
  case Nil
  then show ?case by simp
next
  case (Cons e es)
  obtain gap d ty where e: "e = (gap, d, ty)" by (cases e)
  with Cons.prems have g: "gap < notificationDelay" by simp
  have a: "debounce_armed (queueUpdateNotification hb d ty (advance hb gap c))"
    using Cons.prems(1) g by (rule armed_enqueue)
  have o: "out (queueUpdateNotification hb d ty (advance hb gap c)) = out c"
    by (simp add: queue_frame armed_wait [OF Cons.prems(1) g])
  from Cons.IH [OF a] Cons.prems(2) show ?case
    by (simp add: e o)
qed

lemma flushes_fired_changes:
  "filter flush_fired (fired hb (\<lambda>h c'. ChangeCall h ty (f c')) hs c) = []"
  by (induction hs arbitrary: c) simp_all

lemma flushes_flush: "flushes (flushUpdateNotifications hb c) = flushes c"
  by (simp add: flushes_def out_flush flushes_fired_changes)

lemma armed_fires:
  assumes "debounce_armed c"
  shows "flushes (advance hb notificationDelay c) = flushes c + 1"
proof -
  from assms obtain h where h: "updateTimeout c = Some h"
    and t: "timers c = [\<lparr>handle = h, due = now c + notificationDelay, kind = FlushTimer\<rparr>]"
    by (auto simp: debounce_armed_def split: option.splits)
  have "advance hb notificationDelay c = tick hb (advance hb 99 c)"
    by (simp add: notificationDelay_def eval_nat_numeral)
  also have "advance hb 99 c = c\<lparr>now := now c + 99\<rparr>"
    using assms by (rule armed_wait) (simp add: notificationDelay_def)
  also have "tick hb (c\<lparr>now := now c + 99\<rparr>) =
      flushUpdateNotifications hb
        (c\<lparr>now := now c + 100, timers := [], out := out c @ [TimerFired FlushTimer h]\<rparr>)"
    by (simp add: tick_def Let_def t run_timer_def clearTimer_def notificationDelay_def
        add.commute)
  finally show ?thesis
    by (simp add: flushes_flush) (simp add: flushes_def)
qed

lemma enqueue_single_flush_timer:
  assumes "timers_ok c"
  shows "flush_timers (queueUpdateNotification hb d ty c) =
           [\<lparr>handle = next_handle c, due = now c + notificationDelay, kind = FlushTimer\<rparr>]"
proof (cases "updateTimeout c")
  case None
  with assms show ?thesis
    by (simp add: timers_ok_def flush_timers_def queue_timers)
next
  case (Some h)
  with assms have a: "\<forall>t\<in>set (timers c). (handle t = h) = (kind t = FlushTimer)"
    by (simp add: timers_ok_def)
  from Some show ?thesis
    by (simp add: flush_timers_def queue_timers drop_flush_timers [OF a])
qed

text \<open>
  C3. With at most the debounce timer pending, a burst of enqueues whose pauses are all
  shorter than the debounce interval leaves exactly one timer armed; the flush timer
  does not run during the burst nor in the 99 ms after its last enqueue, and runs exactly
  once when 100 ms have passed since the last enqueue. In every state a new client can
  reach, an enqueue leaves exactly one debounce timer pending, the fresh one.
\<close>

theorem debounce_single_flush:
  assumes "\<forall>t\<in>set (timers c). kind t = FlushTimer \<and> updateTimeout c = Some (handle t)"
    and "\<forall>e\<in>set es. fst e < notificationDelay"
  shows "(let c1 = burst hb es (queueUpdateNotification hb d ty c)
          in debounce_armed c1 \<and>
             (\<forall>k<notificationDelay. flushes (advance hb k c1) = flushes c) \<and>
             flushes (advance hb notificationDelay c1) = flushes c + 1) \<and>
         (let r = run hb cv inputs (new_WSClient url)
          in flush_timers (queueUpdateNotification hb d ty r) =
               [\<lparr>handle = next_handle r, due = now r + notificationDelay, kind = FlushTimer\<rparr>])"
proof -
  define c0 where "c0 = queueUpdateNotification hb d ty c"
  define c1 where "c1 = burst hb es c0"
  have a0: "debounce_armed c0"
    unfolding c0_def using assms(1) by (rule enqueue_arms)
  have o0: "out c0 = out c"
    by (simp add: c0_def queue_frame)
  from burst_armed [OF a0 assms(2)] have a1: "debounce_armed c1" and o1: "out c1 = out c"
    by (simp_all add: c1_def o0)
  have w: "flushes (advance hb k c1) = flushes c" if "k < notificationDelay" for k
    by (simp add: armed_wait [OF a1 that] flushes_def o1)
  have f: "flushes (advance hb notificationDelay c1) = flushes c + 1"
    by (simp add: armed_fires [OF a1]) (simp add: flushes_def o1)
  have "timers_ok (run hb cv inputs (new_WSClient url))"
    using timers_ok_new by (rule timers_ok_run)
  then have r: "flush_timers (queueUpdateNotification hb d ty (run hb cv inputs (new_WSClient url))) =
      [\<lparr>handle = next_handle (run hb cv inputs (new_WSClient url)),
        due = now (run hb cv inputs (new_WSClient url)) + notificationDelay, kind = FlushTimer\<rparr>]"
    by (rule enqueue_single_flush_timer)
  from a1 w f r show ?thesis
    by (simp add: Let_def c1_def c0_def)
qed

theorem debounce_single_flush_witness:
  "flushes (advance (\<lambda>b. b) 99
      (burst (\<lambda>b. b) [(50, b1_v2, BlockType)]
         (queueUpdateNotification (\<lambda>b. b) b1 BlockType debounce_example))) = 0 \<and>
   flushes (advance (\<lambda>b. b) 100
      (burst (\<lambda>b. b) [(50, b1_v2, BlockType)]
         (queueUpdateNotification (\<lambda>b. b) b1 BlockType debounce_example))) = 1"
proof -
  have h1: "\<forall>t\<in>set (timers debounce_example).
              kind t = FlushTimer \<and> updateTimeout debounce_example = Some (handle t)"
    by (simp add: debounce_example_def addOnChange_def new_WSClient_def)
  have h2: "\<forall>e\<in>set [(50, b1_v2, BlockType)]. fst e < notificationDelay"
    by (simp add: notificationDelay_def)
  have z: "flushes debounce_example = 0"
    by (simp add: flushes_def debounce_example_def addOnChange_def new_WSClient_def)
  have k: "(99::nat) < notificationDelay"
    by (simp add: notificationDelay_def)
  from debounce_single_flush [OF h1 h2, of "\<lambda>b. b" b1 BlockType "\<lambda>a b. 0" "[]" None] k
  show ?thesis
    by (simp add: Let_def z notificationDelay_def)
qed

text \<open>
  The scenario of the specification: \<open>b1\<close> is enqueued, 50 ms later \<open>b1\<close> with title
  \<open>v2\<close>; after the quiet period the block handler gets one batch with that entry.
\<close>

lemma debounce_delivery:
  "out (advance (\<lambda>b. b) 100
      (burst (\<lambda>b. b) [(50, b1_v2, BlockType)]
         (queueUpdateNotification (\<lambda>b. b) b1 BlockType debounce_example))) =
   [TimerFired FlushTimer 2, ChangeCall (Handler 1 []) BlockType [b1_v2]]"
  by code_simp

subsection \<open>The poll for the relay's connection\<close>

lemma out_plugin_onReconnect:
  "out (plugin_onReconnect hb c) =
     out c @ map (\<lambda>h. StateChangeCall h Open (state c)) (onStateChange c) @
     map ReconnectCall (onReconnect c)"
  by (simp add: plugin_onReconnect_def plugin_onConnect_def Let_def out_fire_handlers
      fired_state_change fired_reconnect fire_handlers_frame)

lemma plugin_onReconnect_frame:
  "state (plugin_onReconnect hb c) = Open"
  "errorPollId (plugin_onReconnect hb c) = errorPollId c"
  by (simp_all add: plugin_onReconnect_def plugin_onConnect_def Let_def fire_handlers_frame)

lemma plugin_onReconnect_poll_timers:
  assumes "timers_ok c"
  shows "poll_timers (plugin_onReconnect hb c) = poll_timers c"
proof -
  let ?c1 = "fire_handlers hb (\<lambda>h c'. StateChangeCall h Open (state c')) (onStateChange c) c"
  have 1: "poll_timers ?c1 = poll_timers c" and ok: "timers_ok ?c1"
    using assms by (simp_all add: fire_handlers_poll_timers timers_ok_fire_handlers)
  have "poll_timers (?c1\<lparr>state := Open\<rparr>) = poll_timers c"
    using 1 by (simp add: poll_timers_def)
  moreover have "timers_ok (?c1\<lparr>state := Open\<rparr>)"
    using ok by (simp add: timers_ok_frame)
  ultimately show ?thesis
    by (simp add: plugin_onReconnect_def plugin_onConnect_def Let_def fire_handlers_poll_timers)
qed

lemma poll_timer_named:
  assumes "timers_ok c" and "t \<in> set (poll_timers c)"
  shows "errorPollId c = Some (handle t)" and "poll_timers c = [t]"
proof -
  from assms(2) have ne: "poll_timers c \<noteq> []" by auto
  with assms(1) obtain h where h: "errorPollId c = Some h" and m: "map handle (poll_timers c) = [h]"
    by (auto simp: timers_ok_def split: option.splits)
  from m obtain u where u: "poll_timers c = [u]" by auto
  with assms(2) m h show "errorPollId c = Some (handle t)" and "poll_timers c = [t]"
    by auto
qed

lemma onClose_polls:
  assumes "timers_ok c"
  shows "state (plugin_onClose hb n c) = Close"
    and "length (poll_timers (plugin_onClose hb n c)) = 1"
    and "errorPollId c = None \<Longrightarrow> map due (poll_timers (plugin_onClose hb n c)) = [now c + 500]"
    and "errorPollId c \<noteq> None \<Longrightarrow> poll_timers (plugin_onClose hb n c) = poll_timers c"
proof -
  let ?c1 = "fire_handlers hb (\<lambda>h c'. StateChangeCall h Close (state c')) (onStateChange c) c"
  have p: "poll_timers ?c1 = poll_timers c" and e: "errorPollId ?c1 = errorPollId c"
    and n: "now ?c1 = now c"
    using assms by (simp_all add: fire_handlers_poll_timers fire_handlers_frame)
  show "state (plugin_onClose hb n c) = Close"
    by (simp add: plugin_onClose_def Let_def setTimer_frame split: option.split)
  show "length (poll_timers (plugin_onClose hb n c)) = 1"
  proof (cases "errorPollId c")
    case None
    with assms have "poll_timers c = []" by (simp add: timers_ok_def)
    with None p e show ?thesis
      by (simp add: plugin_onClose_def Let_def setTimer_def poll_timers_def)
  next
    case (Some h)
    with assms have "length (map handle (poll_timers c)) = 1" by (simp add: timers_ok_def)
    with Some p e show ?thesis
      by (simp add: plugin_onClose_def Let_def poll_timers_def)
  qed
  show "map due (poll_timers (plugin_onClose hb n c)) = [now c + 500]" if "errorPollId c = None"
  proof -
    from that assms have "poll_timers c = []" by (simp add: timers_ok_def)
    with that p e n show ?thesis
      by (simp add: plugin_onClose_def Let_def setTimer_def poll_timers_def)
  qed
  show "poll_timers (plugin_onClose hb n c) = poll_timers c" if "errorPollId c \<noteq> None"
    using that p e by (auto simp: plugin_onClose_def Let_def poll_timers_def)
qed

lemma rearm_poll_timers:
  "poll_timers (c\<lparr>timers := map (\<lambda>u. if handle u = h then u\<lparr>due := due u + 500\<rparr> else u)
       (timers c), out := x\<rparr>) =
   map (\<lambda>u. if handle u = h then u\<lparr>due := due u + 500\<rparr> else u) (poll_timers c)"
proof -
  have "filter (\<lambda>t. kind t = PollTimer)
          (map (\<lambda>u. if handle u = h then u\<lparr>due := due u + 500\<rparr> else u) ts) =
        map (\<lambda>u. if handle u = h then u\<lparr>due := due u + 500\<rparr> else u)
          (filter (\<lambda>t. kind t = PollTimer) ts)" for ts :: "timer list"
    by (induction ts) simp_all
  then show ?thesis by (simp add: poll_timers_def)
qed

lemma poll_reconnects:
  assumes "timers_ok c" and "t \<in> set (poll_timers c)" and "conn_open c"
  shows "state (run_timer hb t c) = Open"
    and "out (run_timer hb t c) =
           out c @ TimerFired PollTimer (handle t) #
           map (\<lambda>h. StateChangeCall h Open (state c)) (onStateChange c) @
           map ReconnectCall (onReconnect c)"
    and "poll_timers (run_timer hb t c) = []"
    and "errorPollId (run_timer hb t c) = None"
proof -
  let ?c2 = "c\<lparr>timers := map (\<lambda>u. if handle u = handle t then u\<lparr>due := due u + 500\<rparr> else u)
                           (timers c),
               out := out c @ [TimerFired PollTimer (handle t)]\<rparr>"
  from assms(2) have k: "kind t = PollTimer"
    by (simp add: poll_timers_def)
  have ok: "timers_ok ?c2"
    using assms(1) by (simp add: timers_ok_frame timers_ok_rearm)
  have e: "errorPollId ?c2 = Some (handle t)"
    using poll_timer_named(1) [OF assms(1,2)] by simp
  have co: "conn_open ?c2"
    using assms(3) by (simp add: conn_open_def)
  let ?c3 = "plugin_onReconnect hb ?c2"
  have e3: "errorPollId ?c3 = Some (handle t)"
    using e by (simp add: plugin_onReconnect_frame)
  have r: "run_timer hb t c = (clearTimer (handle t) ?c3)\<lparr>errorPollId := None\<rparr>"
    using k co e3 by (simp add: run_timer_def Let_def poll_def)
  show "state (run_timer hb t c) = Open"
    by (simp add: r clearTimer_def plugin_onReconnect_frame)
  show "out (run_timer hb t c) =
           out c @ TimerFired PollTimer (handle t) #
           map (\<lambda>h. StateChangeCall h Open (state c)) (onStateChange c) @
           map ReconnectCall (onReconnect c)"
    by (simp add: r clearTimer_def out_plugin_onReconnect)
  show "errorPollId (run_timer hb t c) = None"
    by (simp add: r)
  have "timers_ok ((clearTimer (handle t) ?c3)\<lparr>errorPollId := None\<rparr>)"
    using timers_ok_plugin_onReconnect [OF ok] e3 by (rule timers_ok_stop_poll)
  then show "poll_timers (run_timer hb t c) = []"
    by (simp add: r timers_ok_def)
qed

lemma poll_waits:
  assumes "kind t = PollTimer" and "\<not> conn_open c"
  shows "run_timer hb t c =
           c\<lparr>timers := map (\<lambda>u. if handle u = handle t then u\<lparr>due := due u + 500\<rparr> else u)
                           (timers c),
             out := out c @ [TimerFired PollTimer (handle t)]\<rparr>"
  using assms by (simp add: run_timer_def Let_def poll_def conn_open_def)

text \<open>
  C6. When the relay reports close, the state becomes \<^verbatim>\<open>'close'\<close> and exactly one
  poll is pending afterwards: a new one due in 500 ms when none was running, the one
  already running otherwise. A run of the pending poll that finds
  \<^verbatim>\<open>conn.readyState\<close> equal to 1 calls the state-change handlers with \<^verbatim>\<open>'open'\<close>
  and then each reconnect handler once, leaves the state \<^verbatim>\<open>'open'\<close> and no poll
  pending; a run that finds another value only waits for the next run. This holds for
  every client whose timer queue is consistent, which every state that a new client can
  reach is; none of them has more than one poll pending.
\<close>

theorem poll_until_reconnected:
  assumes "timers_ok c"
  shows "state (plugin_onClose hb n c) = Close \<and>
    length (poll_timers (plugin_onClose hb n c)) = 1 \<and>
    (errorPollId c = None \<longrightarrow> map due (poll_timers (plugin_onClose hb n c)) = [now c + 500]) \<and>
    (errorPollId c \<noteq> None \<longrightarrow> poll_timers (plugin_onClose hb n c) = poll_timers c) \<and>
    timers_ok (plugin_onClose hb n c) \<and>
    (\<forall>t\<in>set (poll_timers c).
       (conn_open c \<longrightarrow>
          state (run_timer hb t c) = Open \<and>
          out (run_timer hb t c) =
            out c @ TimerFired PollTimer (handle t) #
            map (\<lambda>h. StateChangeCall h Open (state c)) (onStateChange c) @
            map ReconnectCall (onReconnect c) \<and>
          poll_timers (run_timer hb t c) = [] \<and> errorPollId (run_timer hb t c) = None) \<and>
       (\<not> conn_open c \<longrightarrow>
          run_timer hb t c =
            c\<lparr>timers := map (\<lambda>u. if handle u = handle t then u\<lparr>due := due u + 500\<rparr> else u)
                            (timers c),
              out := out c @ [TimerFired PollTimer (handle t)]\<rparr>)) \<and>
    timers_ok (run hb cv inputs (new_WSClient url)) \<and>
    length (poll_timers (run hb cv inputs (new_WSClient url))) \<le> 1"
proof -
  have reach: "timers_ok (run hb cv inputs (new_WSClient url))"
    using timers_ok_new by (rule timers_ok_run)
  then have one: "length (poll_timers (run hb cv inputs (new_WSClient url))) \<le> 1"
    by (cases "errorPollId (run hb cv inputs (new_WSClient url))")
       (simp add: timers_ok_def, simp add: timers_ok_def,
        metis length_map length_Cons list.size(3) One_nat_def order_refl)
  have k: "kind t = PollTimer" if "t \<in> set (poll_timers c)" for t
    using that by (simp add: poll_timers_def)
  show ?thesis
    by (simp add: onClose_polls [OF assms] timers_ok_plugin_onClose [OF assms]
        poll_reconnects [OF assms] poll_waits [OF k] one [simplified] reach)
qed




theorem poll_until_reconnected_witness:
  "state (plugin_onClose (\<lambda>b. b) 3 closed_relay_example) = Close \<and>
   map due (poll_timers (plugin_onClose (\<lambda>b. b) 3 closed_relay_example)) = [500] \<and>
   state (run_timer (\<lambda>b. b) \<lparr>handle = 1, due = 500, kind = PollTimer\<rparr> reopened_relay_example) = Open \<and>
   out (run_timer (\<lambda>b. b) \<lparr>handle = 1, due = 500, kind = PollTimer\<rparr> reopened_relay_example) =
     [StateChangeCall (Handler 1 []) Close Init, TimerFired PollTimer 1,
      StateChangeCall (Handler 1 []) Open Close, ReconnectCall (Handler 2 [])] \<and>
   poll_timers (run_timer (\<lambda>b. b) \<lparr>handle = 1, due = 500, kind = PollTimer\<rparr> reopened_relay_example) = []"
proof -
  let ?t = "\<lparr>handle = 1, due = 500, kind = PollTimer\<rparr>"
  have ok1: "timers_ok closed_relay_example" by code_simp
  have e1: "errorPollId closed_relay_example = None" by code_simp
  have n1: "now closed_relay_example = 0" by code_simp
  have ok2: "timers_ok reopened_relay_example" by code_simp
  have t2: "?t \<in> set (poll_timers reopened_relay_example)" by code_simp
  have o2: "conn_open reopened_relay_example" by code_simp
  have v: "out reopened_relay_example = [StateChangeCall (Handler 1 []) Close Init]"
    "state reopened_relay_example = Close"
    "onStateChange reopened_relay_example = [Handler 1 []]"
    "onReconnect reopened_relay_example = [Handler 2 []]"
    by code_simp+
  from poll_until_reconnected [OF ok1, of "\<lambda>b. b" 3 "\<lambda>a b. 0" "[]" None] e1
  have a: "state (plugin_onClose (\<lambda>b. b) 3 closed_relay_example) = Close \<and>
           map due (poll_timers (plugin_onClose (\<lambda>b. b) 3 closed_relay_example)) = [500]"
    by (simp add: n1)
  from poll_until_reconnected [OF ok2, of "\<lambda>b. b" 0 "\<lambda>a b. 0" "[]" None] t2 o2
  have "state (run_timer (\<lambda>b. b) ?t reopened_relay_example) = Open \<and>
        out (run_timer (\<lambda>b. b) ?t reopened_relay_example) =
          out reopened_relay_example @ TimerFired PollTimer (handle ?t) #
          map (\<lambda>h. StateChangeCall h Open (state reopened_relay_example))
            (onStateChange reopened_relay_example) @
          map ReconnectCall (onReconnect reopened_relay_example) \<and>
        poll_timers (run_timer (\<lambda>b. b) ?t reopened_relay_example) = []"
    by blast
  with a show ?thesis by (simp add: v)
qed

text \<open>
  The scenario of the specification: the relay reports close with fail count 3, the first
  poll finds the connection not open, the second finds \<^verbatim>\<open>readyState\<close> 1.
\<close>

lemma poll_scenario:
  "out (advance (\<lambda>b. b) 500
     (step (\<lambda>b. b) (\<lambda>a b. 0) (RelayConn (Some 1))
        (advance (\<lambda>b. b) 500 (plugin_onClose (\<lambda>b. b) 3 closed_relay_example)))) =
   [StateChangeCall (Handler 1 []) Close Init, TimerFired PollTimer 1, TimerFired PollTimer 1,
    StateChangeCall (Handler 1 []) Open Close, ReconnectCall (Handler 2 [])]"
proof -
  let ?c1 = "plugin_onClose (\<lambda>b. b) 3 closed_relay_example"
  let ?t1 = "\<lparr>handle = 1, due = 500, kind = PollTimer\<rparr>"
  have t1: "timers ?c1 = [?t1]" and n1: "now ?c1 = 0"
    by code_simp+
  have d1: "due ?t1 = now ?c1 + Suc 499" unfolding n1 by simp
  have a1: "advance (\<lambda>b. b) 500 ?c1 = run_timer (\<lambda>b. b) ?t1 (?c1\<lparr>now := 500\<rparr>)"
    using advance_single_timer(2) [OF t1 d1, of "\<lambda>b. b"] unfolding n1 by simp
  let ?c2 = "step (\<lambda>b. b) (\<lambda>a b. 0) (RelayConn (Some 1))
               (run_timer (\<lambda>b. b) ?t1 (?c1\<lparr>now := 500\<rparr>))"
  let ?t2 = "\<lparr>handle = 1, due = 1000, kind = PollTimer\<rparr>"
  have t2: "timers ?c2 = [?t2]" and n2: "now ?c2 = 500"
    by code_simp+
  have d2: "due ?t2 = now ?c2 + Suc 499" unfolding n2 by simp
  have a2: "advance (\<lambda>b. b) 500 ?c2 = run_timer (\<lambda>b. b) ?t2 (?c2\<lparr>now := 1000\<rparr>)"
    using advance_single_timer(2) [OF t2 d2, of "\<lambda>b. b"] unfolding n2 by simp
  have "out (run_timer (\<lambda>b. b) ?t2 (?c2\<lparr>now := 1000\<rparr>)) =
     [StateChangeCall (Handler 1 []) Close Init, TimerFired PollTimer 1, TimerFired PollTimer 1,
      StateChangeCall (Handler 1 []) Open Close, ReconnectCall (Handler 2 [])]"
    by code_simp
  then show ?thesis by (simp only: a1 a2)
qed

subsection \<open>Plugin status broadcasts\<close>

text \<open>
  C5. A status broadcast whose first entry for this plugin's id has version \<open>v\<close>, with
  a version-change hook set: when \<^verbatim>\<open>compareVersions(pluginVersion, v)\<close> is positive
  (the remote version is newer) the hook is called with \<^verbatim>\<open>true\<close>; when it is zero or
  positive a timer for the reconnect closure is queued, due in 1000 ms; when it is zero
  the hook is not called. With no other timer pending, nothing happens for 999 ms, and at
  1000 ms the stored \<^verbatim>\<open>onReconnect\<close> runs if \<^verbatim>\<open>open\<close> has stored one.
\<close>

theorem plugin_status_version_change:
  assumes "pluginId c \<noteq> ''''" and "onAppVersionChangeHandler c = Some fn"
    and "find (\<lambda>s. plugin_id s = pluginId c) statuses = Some st"
  shows "(let r = compareVersions (pluginVersion c) (version st);
              c' = pluginStatusesChangedHandler compareVersions statuses c;
              t = \<lparr>handle = next_handle c, due = now c + 1000, kind = PluginReconnectTimer\<rparr>
          in (0 < r \<longrightarrow> out c' = out c @ [AppVersionChange fn True]) \<and>
             (r \<le> 0 \<longrightarrow> out c' = out c) \<and>
             (0 \<le> r \<longrightarrow> timers c' = timers c @ [t]) \<and>
             (r < 0 \<longrightarrow> c' = c) \<and>
             (0 \<le> r \<and> timers c = [] \<longrightarrow>
                advance hb 999 c' = c'\<lparr>now := now c + 999\<rparr> \<and>
                advance hb 1000 c' =
                  (let x = c'\<lparr>now := now c + 1000, timers := [],
                             out := out c' @ [TimerFired PluginReconnectTimer (next_handle c)]\<rparr>
                   in if onPluginReconnect c then plugin_onReconnect hb x else x)))"
proof -
  define r where "r = compareVersions (pluginVersion c) (version st)"
  define c' where "c' = pluginStatusesChangedHandler compareVersions statuses c"
  define t where "t = \<lparr>handle = next_handle c, due = now c + 1000, kind = PluginReconnectTimer\<rparr>"
  have 1: "0 < r \<longrightarrow> out c' = out c @ [AppVersionChange fn True]"
    and 2: "r \<le> 0 \<longrightarrow> out c' = out c"
    and 3: "0 \<le> r \<longrightarrow> timers c' = timers c @ [t]"
    and 4: "r < 0 \<longrightarrow> c' = c"
    and n: "now c' = now c"
    and p: "onPluginReconnect c' = onPluginReconnect c"
    using assms unfolding r_def c'_def t_def
    by (auto simp: pluginStatusesChangedHandler_def Let_def setTimer_def)
  have 5: "advance hb 999 c' = c'\<lparr>now := now c + 999\<rparr> \<and>
           advance hb 1000 c' =
             (let x = c'\<lparr>now := now c + 1000, timers := [],
                        out := out c' @ [TimerFired PluginReconnectTimer (next_handle c)]\<rparr>
              in if onPluginReconnect c then plugin_onReconnect hb x else x)"
    if "0 \<le> r \<and> timers c = []"
  proof -
    from that 3 have ts: "timers c' = [t]" by simp
    have d: "due t = now c' + Suc 999" by (simp add: t_def n)
    from advance_single_timer [OF ts d, of hb] show ?thesis
      by (simp add: n p run_timer_def Let_def t_def clearTimer_def ts
          reconnect_after_update_def)
  qed
  from 1 2 3 4 5 show ?thesis
    unfolding Let_def r_def [symmetric] c'_def [symmetric] t_def [symmetric] by blast
qed

theorem plugin_status_version_change_witness:
  "out (pluginStatusesChangedHandler (\<lambda>a b. 1)
          [\<lparr>plugin_id = ''focalboard'', version = ''7.1.0''\<rparr>] status_example) =
     [AppVersionChange 9 True] \<and>
   out (pluginStatusesChangedHandler (\<lambda>a b. 0)
          [\<lparr>plugin_id = ''focalboard'', version = ''7.0.0''\<rparr>] status_example) = [] \<and>
   timers (pluginStatusesChangedHandler (\<lambda>a b. 0)
          [\<lparr>plugin_id = ''focalboard'', version = ''7.0.0''\<rparr>] status_example) =
     [\<lparr>handle = 1, due = 1000, kind = PluginReconnectTimer\<rparr>] \<and>
   out (advance (\<lambda>b. b) 1000 (pluginStatusesChangedHandler (\<lambda>a b. 0)
          [\<lparr>plugin_id = ''focalboard'', version = ''7.0.0''\<rparr>] status_example)) =
     [TimerFired PluginReconnectTimer 1, StateChangeCall (Handler 1 []) Open Init,
      ReconnectCall (Handler 2 [])]"
proof -
  let ?new = "[\<lparr>plugin_id = ''focalboard'', version = ''7.1.0''\<rparr>]"
  let ?same = "[\<lparr>plugin_id = ''focalboard'', version = ''7.0.0''\<rparr>]"
  have h1: "pluginId status_example \<noteq> ''''" by code_simp
  have h2: "onAppVersionChangeHandler status_example = Some 9" by code_simp
  have h3: "find (\<lambda>s. plugin_id s = pluginId status_example) ?new =
              Some \<lparr>plugin_id = ''focalboard'', version = ''7.1.0''\<rparr>" by code_simp
  have h4: "find (\<lambda>s. plugin_id s = pluginId status_example) ?same =
              Some \<lparr>plugin_id = ''focalboard'', version = ''7.0.0''\<rparr>" by code_simp
  have v: "out status_example = []" "timers status_example = []" "now status_example = 0"
    "next_handle status_example = 1" "onPluginReconnect status_example"
    by code_simp+
  let ?c' = "pluginStatusesChangedHandler (\<lambda>a b. 0) ?same status_example"
  have o: "out (plugin_onReconnect (\<lambda>b. b)
             (?c'\<lparr>now := 1000, timers := [], out := [TimerFired PluginReconnectTimer 1]\<rparr>)) =
           [TimerFired PluginReconnectTimer 1, StateChangeCall (Handler 1 []) Open Init,
            ReconnectCall (Handler 2 [])]"
    by code_simp
  from plugin_status_version_change [OF h1 h2 h3, of "\<lambda>a b. 1" "\<lambda>b. b"]
  have a: "out (pluginStatusesChangedHandler (\<lambda>a b. 1) ?new status_example) =
             [AppVersionChange 9 True]"
    by (simp add: Let_def v)
  from plugin_status_version_change [OF h1 h2 h4, of "\<lambda>a b. 0" "\<lambda>b. b"]
  have b: "out ?c' = [] \<and> timers ?c' = [\<lparr>handle = 1, due = 1000, kind = PluginReconnectTimer\<rparr>] \<and>
           advance (\<lambda>b. b) 1000 ?c' = plugin_onReconnect (\<lambda>b. b)
             (?c'\<lparr>now := 1000, timers := [], out := [TimerFired PluginReconnectTimer 1]\<rparr>)"
    by (simp add: Let_def v)
  from a b o show ?thesis by simp
qed

end
